theory Spec2Isabelle
  imports Main "HOL-Library.Sublist" "HOL-Library.Multiset"
begin

section \<open>Python string primitives used by the program\<close>

text \<open>
  Strings are lists of characters; a character stands for one code point (the model
  covers the code points below 256), so \<open>length\<close> is Python's \<open>len\<close>.
\<close>

text \<open>
  \<open>s.replace(old, new)\<close>: every non-overlapping occurrence of \<open>old\<close>, scanning
  from the left, is replaced by \<open>new\<close>; the replacement text is not scanned again.
  With an empty \<open>old\<close>, \<open>new\<close> is put before every character and at the end.
\<close>

function py_replace :: "string \<Rightarrow> string \<Rightarrow> string \<Rightarrow> string" where
  "py_replace old new [] = (if old = [] then new else [])"
| "py_replace old new (c # cs) =
     (if old = [] then new @ c # py_replace old new cs
      else if prefix old (c # cs) then new @ py_replace old new (drop (length old) (c # cs))
      else c # py_replace old new cs)"
  by pat_completeness auto
termination
  by (relation "measure (\<lambda>(old, new, s). length s)") auto

text \<open>\<open>s.replace(old, new, 1)\<close>: only the first occurrence is replaced.\<close>

fun py_replace_first :: "string \<Rightarrow> string \<Rightarrow> string \<Rightarrow> string" where
  "py_replace_first old new [] = (if old = [] then new else [])"
| "py_replace_first old new (c # cs) =
     (if prefix old (c # cs) then new @ drop (length old) (c # cs)
      else c # py_replace_first old new cs)"

text \<open>\<open>s.rstrip(chars)\<close>: the longest suffix made of characters of \<open>chars\<close> is removed.\<close>

definition py_rstrip :: "string \<Rightarrow> string \<Rightarrow> string" where
  "py_rstrip chars s = rev (dropWhile (\<lambda>c. c \<in> set chars) (rev s))"

text \<open>
  \<open>str.isspace\<close> on one character, for the code points below 256: tab, line feed,
  vertical tab, form feed, carriage return, the separators 28 to 31, the space,
  next line (133) and the no-break space (160).
\<close>

definition py_isspace :: "char \<Rightarrow> bool" where
  "py_isspace c =
     (let n = (of_char c :: nat)
      in (9 \<le> n \<and> n \<le> 13) \<or> (28 \<le> n \<and> n \<le> 32) \<or> n = 133 \<or> n = 160)"

text \<open>\<open>s.lstrip()\<close> and \<open>s.strip()\<close> with no argument remove white space.\<close>

definition py_lstrip :: "string \<Rightarrow> string" where
  "py_lstrip s = dropWhile py_isspace s"

definition py_strip :: "string \<Rightarrow> string" where
  "py_strip s = rev (dropWhile py_isspace (rev (dropWhile py_isspace s)))"

text \<open>\<open>s.lower()\<close>, on the letters A to Z (no other character below 256 lowers to a
  character of \<open>''y''\<close>, the only string the program compares a lowered text with).\<close>

definition py_lower_char :: "char \<Rightarrow> char" where
  "py_lower_char c =
     (let n = (of_char c :: nat) in if 65 \<le> n \<and> n \<le> 90 then char_of (n + 32) else c)"

definition py_lower :: "string \<Rightarrow> string" where
  "py_lower s = map py_lower_char s"

definition startswith :: "string \<Rightarrow> string \<Rightarrow> bool" where
  "startswith s p = prefix p s"

definition endswith :: "string \<Rightarrow> string \<Rightarrow> bool" where
  "endswith s p = suffix p s"

text \<open>
  \<open>os.path.join(a, b)\<close> of \<open>posixpath\<close>, for two arguments: an absolute \<open>b\<close>
  discards \<open>a\<close>; otherwise \<open>b\<close> is appended, after a separator unless \<open>a\<close> is
  empty or already ends with one.
\<close>

definition path_join :: "string \<Rightarrow> string \<Rightarrow> string" where
  "path_join a b =
     (if startswith b ''/'' then b
      else if a = [] \<or> endswith a ''/'' then a @ b
      else a @ ''/'' @ b)"

section \<open>Path normalisation and task derivation\<close>

text \<open>
  The module constant \<open>HOME = os.path.expanduser("~")\<close> is a parameter \<open>home\<close> of
  every function that reads it.
\<close>

definition normalize_path :: "string \<Rightarrow> string \<Rightarrow> string" where
  "normalize_path home path =
     (let path = py_replace ''HOME'' home path
      in py_replace ''/'' ''-'' (py_replace ''-'' ''--'' path))"

text \<open>A task is the tuple \<open>(src, dst, is_dir)\<close> of the source.\<close>

type_synonym task = "string \<times> string \<times> bool"

text \<open>Lines 51 to 54 of \<open>apply_additions\<close>: the task of one declaration.\<close>

definition addition_task :: "string \<Rightarrow> string \<Rightarrow> string \<Rightarrow> task" where
  "addition_task home base_dir raw_path =
     (let is_dir = endswith raw_path ''/'';
          base_path = py_rstrip ''/'' (py_replace ''HOME/'' [] raw_path);
          src = path_join home base_path;
          dst = path_join base_dir (py_rstrip ''-'' (normalize_path home base_path))
      in (src, dst, is_dir))"

text \<open>Lines 93 to 97 of \<open>apply_removals\<close>; \<open>raw_path[1:]\<close> is \<open>drop 1\<close>.\<close>

definition removal_task :: "string \<Rightarrow> string \<Rightarrow> string \<Rightarrow> task" where
  "removal_task home base_dir raw_path =
     (let is_dir = endswith raw_path ''/'';
          base_path = py_rstrip ''/'' (py_replace_first ''HOME/'' [] (py_lstrip (drop 1 raw_path)));
          src = path_join home base_path;
          dst = path_join base_dir (py_rstrip ''-'' (normalize_path home base_path))
      in (src, dst, is_dir))"

text \<open>
  Whether a declaration belongs to a pass: \<open>apply_additions\<close> skips the keys that start
  with the removal marker (line 49), \<open>apply_removals\<close> skips the others (line 91).
\<close>

definition addition_decl :: "string \<Rightarrow> string \<Rightarrow> string \<Rightarrow> task option" where
  "addition_decl home base_dir raw_path =
     (if startswith raw_path ''-'' then None else Some (addition_task home base_dir raw_path))"

definition removal_decl :: "string \<Rightarrow> string \<Rightarrow> string \<Rightarrow> task option" where
  "removal_decl home base_dir raw_path =
     (if \<not> startswith raw_path ''-'' then None else Some (removal_task home base_dir raw_path))"

text \<open>
  The leaf name of the backing store for a home-relative path: \<open>normalize_path\<close>
  followed by the strip of trailing dashes used when \<open>dst\<close> is formed.
\<close>

definition safe_name :: "string \<Rightarrow> string \<Rightarrow> string" where
  "safe_name home base_path = py_rstrip ''-'' (normalize_path home base_path)"

text \<open>
  The processing orders: \<open>sorted(tasks, key=lambda x: len(x[0]), reverse=True)\<close> and
  \<open>sorted(tasks, key=lambda x: len(x[0]))\<close>. Python's sort is stable, and with
  \<open>reverse=True\<close> it sorts the reversed list and reverses the result, which keeps
  equal keys in their input order.
\<close>

definition py_sorted :: "('a \<Rightarrow> nat) \<Rightarrow> bool \<Rightarrow> 'a list \<Rightarrow> 'a list" where
  "py_sorted key reverse xs =
     (if reverse then rev (sort_key key (rev xs)) else sort_key key xs)"

definition additions_order :: "task list \<Rightarrow> task list" where
  "additions_order tasks = py_sorted (\<lambda>x. length (fst x)) True tasks"

definition removals_order :: "task list \<Rightarrow> task list" where
  "removals_order tasks = py_sorted (\<lambda>x. length (fst x)) False tasks"

text \<open>
  The escaping of separators that \<open>normalize_path\<close> applies after the token
  substitution (its \<open>return\<close> expression), named for the statements below.
\<close>

definition escape_separators :: "string \<Rightarrow> string" where
  "escape_separators s = py_replace ''/'' ''-'' (py_replace ''-'' ''--'' s)"

section \<open>The filesystem and the operating-system calls\<close>

text \<open>
  A location is the list of the names from the root to an entry. The filesystem is an
  association list from locations to nodes; the root (the empty location) is a
  directory that is not listed. A directory's entries are the locations that extend
  it by one name.
\<close>

type_synonym path = "string list"

datatype node = File string | Dir | Link string

type_synonym filesystem = "(path \<times> node) list"

text \<open>The exceptions the modelled calls can raise.\<close>

datatype py_exception =
    FileNotFoundError | NotADirectoryError | FileExistsError | IsADirectoryError
  | OSError_ELOOP | OSError_ENOTEMPTY | OSError_EINVAL | OSError_EBUSY | OSError_EXDEV
  | ShutilError | EOFError | KeyError

datatype 'a outcome = Returned 'a | Raised py_exception

text \<open>The lines the program prints, one constructor for each \<open>print\<close> of the source.\<close>

datatype message =
    WarnNeedsDir string
  | WarnNeedsFile string
  | InfoAlreadyConfigured string
  | ErrorWrongSymlink string
  | ErrorDstExists string string
  | PromptOtherDevice string string
  | InfoMoveCancelled string
  | LinkCreated string string
  | LinkRemoved string string
  | SkipMoveBack string string
  | StoreDirRemoved string
  | WarnNotCorrectLink string

text \<open>
  The world the program runs in: the files, the working directory, the mount table
  (mount points with their device numbers, the most specific first; a location
  under no mount point is on device 0), the lines still to be read from standard
  input and the lines printed so far.
\<close>

record world =
  files :: filesystem
  cwd :: path
  mounts :: "(path \<times> nat) list"
  stdin :: "string list"
  stdout :: "message list"

definition device :: "world \<Rightarrow> path \<Rightarrow> nat" where
  "device w p = (case find (\<lambda>m. prefix (fst m) p) (mounts w) of None \<Rightarrow> 0 | Some m \<Rightarrow> snd m)"

definition print :: "message \<Rightarrow> world \<Rightarrow> world" where
  "print m w = w\<lparr>stdout := stdout w @ [m]\<rparr>"

definition lookup :: "filesystem \<Rightarrow> path \<Rightarrow> node option" where
  "lookup fs p = (if p = [] then Some Dir else map_of fs p)"

definition fs_delete :: "filesystem \<Rightarrow> path \<Rightarrow> filesystem" where
  "fs_delete fs p = filter (\<lambda>e. fst e \<noteq> p) fs"

definition fs_put :: "filesystem \<Rightarrow> path \<Rightarrow> node \<Rightarrow> filesystem" where
  "fs_put fs p n = (p, n) # fs_delete fs p"

definition fs_children :: "filesystem \<Rightarrow> path \<Rightarrow> string list" where
  "fs_children fs p =
     remdups (map (\<lambda>e. last (fst e)) (filter (\<lambda>e. fst e \<noteq> [] \<and> butlast (fst e) = p) fs))"

text \<open>
  Moving the entry at \<open>p\<close>, with everything below it, to \<open>q\<close>; what was at \<open>q\<close>
  (a file, a link or an empty directory that the move replaces) is dropped.
\<close>

definition fs_move :: "filesystem \<Rightarrow> path \<Rightarrow> path \<Rightarrow> filesystem" where
  "fs_move fs p q =
     map (\<lambda>e. if prefix p (fst e) then (q @ drop (length p) (fst e), snd e) else e)
       (filter (\<lambda>e. \<not> prefix q (fst e)) fs)"

text \<open>
  The names of a path string: the pieces between separators, empty pieces dropped;
  a trailing separator is a final \<open>.\<close>, which makes the name before it a directory
  that is entered.
\<close>

fun split_sep :: "string \<Rightarrow> string list" where
  "split_sep [] = [[]]"
| "split_sep (c # cs) =
     (if c = CHR ''/'' then [] # split_sep cs
      else (case split_sep cs of [] \<Rightarrow> [[c]] | w # ws \<Rightarrow> (c # w) # ws))"

definition components :: "string \<Rightarrow> string list" where
  "components p =
     (let ws = filter (\<lambda>w. w \<noteq> []) (split_sep p)
      in if endswith p ''/'' \<and> ws \<noteq> [] then ws @ [''.''] else ws)"

text \<open>
  Path resolution. \<open>walk\<close> consumes the names from the directory \<open>cur\<close>; a symbolic
  link met on the way is followed, the last name only when \<open>follow\<close> is set; at most
  \<open>fuel\<close> links are followed (the kernel allows 40, then fails with \<open>ELOOP\<close>).
  The result is the location and node found, or the location that is absent in an
  existing directory, or the error.
\<close>

datatype resolved = Found path node | Absent path | Failed py_exception

fun walk :: "filesystem \<Rightarrow> bool \<Rightarrow> nat \<Rightarrow> path \<Rightarrow> string list \<Rightarrow> resolved" where
  "walk fs follow fuel cur [] = Found cur Dir"
| "walk fs follow fuel cur (c # cs) =
     (if c = ''.'' then walk fs follow fuel cur cs
      else if c = ''..'' then walk fs follow fuel (butlast cur) cs
      else (case lookup fs (cur @ [c]) of
          None \<Rightarrow> (if cs = [] then Absent (cur @ [c]) else Failed FileNotFoundError)
        | Some Dir \<Rightarrow> walk fs follow fuel (cur @ [c]) cs
        | Some (File d) \<Rightarrow>
            (if cs = [] then Found (cur @ [c]) (File d) else Failed NotADirectoryError)
        | Some (Link t) \<Rightarrow>
            (if cs = [] \<and> \<not> follow then Found (cur @ [c]) (Link t)
             else if fuel = 0 then Failed OSError_ELOOP
             else if t = [] then Failed FileNotFoundError
             else walk fs follow (fuel - 1) (if startswith t ''/'' then [] else cur)
                    (components t @ cs))))"

definition resolve :: "world \<Rightarrow> bool \<Rightarrow> string \<Rightarrow> resolved" where
  "resolve w follow p =
     (if p = [] then Failed FileNotFoundError
      else walk (files w) follow 40 (if startswith p ''/'' then [] else cwd w) (components p))"

text \<open>\<open>os.path.exists\<close>, \<open>isdir\<close> and \<open>isfile\<close> follow links and never raise;
  \<open>os.path.islink\<close> and \<open>os.readlink\<close> look at the last name itself.\<close>

definition os_path_exists :: "world \<Rightarrow> string \<Rightarrow> bool" where
  "os_path_exists w p = (case resolve w True p of Found q n \<Rightarrow> True | _ \<Rightarrow> False)"

definition os_path_isdir :: "world \<Rightarrow> string \<Rightarrow> bool" where
  "os_path_isdir w p = (case resolve w True p of Found q Dir \<Rightarrow> True | _ \<Rightarrow> False)"

definition os_path_isfile :: "world \<Rightarrow> string \<Rightarrow> bool" where
  "os_path_isfile w p = (case resolve w True p of Found q (File d) \<Rightarrow> True | _ \<Rightarrow> False)"

definition os_path_islink :: "world \<Rightarrow> string \<Rightarrow> bool" where
  "os_path_islink w p = (case resolve w False p of Found q (Link t) \<Rightarrow> True | _ \<Rightarrow> False)"

definition os_readlink :: "world \<Rightarrow> string \<Rightarrow> string outcome" where
  "os_readlink w p =
     (case resolve w False p of
        Found q (Link t) \<Rightarrow> Returned t
      | Found q _ \<Rightarrow> Raised OSError_EINVAL
      | Absent q \<Rightarrow> Raised FileNotFoundError
      | Failed e \<Rightarrow> Raised e)"

text \<open>\<open>os.stat(p).st_dev\<close>: the device of the location that \<open>p\<close> resolves to.\<close>

definition os_stat_dev :: "world \<Rightarrow> string \<Rightarrow> nat outcome" where
  "os_stat_dev w p =
     (case resolve w True p of
        Found q n \<Rightarrow> Returned (device w q)
      | Absent q \<Rightarrow> Raised FileNotFoundError
      | Failed e \<Rightarrow> Raised e)"

text \<open>\<open>os.symlink(target, p)\<close> creates the link at \<open>p\<close> and fails when \<open>p\<close> has an
  entry, whatever it is.\<close>

definition os_symlink :: "string \<Rightarrow> string \<Rightarrow> world \<Rightarrow> unit outcome \<times> world" where
  "os_symlink target p w =
     (if target = [] then (Raised FileNotFoundError, w)
      else (case resolve w False p of
          Absent q \<Rightarrow> (Returned (), w\<lparr>files := fs_put (files w) q (Link target)\<rparr>)
        | Found q n \<Rightarrow> (Raised FileExistsError, w)
        | Failed e \<Rightarrow> (Raised e, w)))"

text \<open>\<open>os.remove(p)\<close> (and \<open>os.unlink\<close>) deletes a file or a link, not a directory.\<close>

definition os_remove :: "string \<Rightarrow> world \<Rightarrow> unit outcome \<times> world" where
  "os_remove p w =
     (case resolve w False p of
        Found q Dir \<Rightarrow> (Raised IsADirectoryError, w)
      | Found q _ \<Rightarrow> (Returned (), w\<lparr>files := fs_delete (files w) q\<rparr>)
      | Absent q \<Rightarrow> (Raised FileNotFoundError, w)
      | Failed e \<Rightarrow> (Raised e, w))"

definition os_listdir :: "world \<Rightarrow> string \<Rightarrow> string list outcome" where
  "os_listdir w p =
     (case resolve w True p of
        Found q Dir \<Rightarrow> Returned (fs_children (files w) q)
      | Found q _ \<Rightarrow> Raised NotADirectoryError
      | Absent q \<Rightarrow> Raised FileNotFoundError
      | Failed e \<Rightarrow> Raised e)"

text \<open>\<open>os.path.split\<close>, \<open>dirname\<close> and \<open>basename\<close> of \<open>posixpath\<close>: the head is the text
  up to the last separator, without its trailing separators unless it is made of
  separators only.\<close>

definition path_split :: "string \<Rightarrow> string \<times> string" where
  "path_split p =
     (let tail = rev (takeWhile (\<lambda>c. c \<noteq> CHR ''/'') (rev p));
          head = rev (dropWhile (\<lambda>c. c \<noteq> CHR ''/'') (rev p))
      in (if head \<noteq> [] \<and> \<not> list_all (\<lambda>c. c = CHR ''/'') head then py_rstrip ''/'' head else head,
          tail))"

definition dirname :: "string \<Rightarrow> string" where
  "dirname p = fst (path_split p)"

definition basename :: "string \<Rightarrow> string" where
  "basename p = snd (path_split p)"

text \<open>
  The last name of a path as the kernel reads it, trailing separators set aside (also
  \<open>_basename\<close> of \<open>shutil\<close>). The kernel refuses to rename or to remove an entry
  through the names \<open>.\<close> and \<open>..\<close>.
\<close>

definition last_name :: "string \<Rightarrow> string" where
  "last_name p = basename (py_rstrip ''/'' p)"

definition dot_name :: "string \<Rightarrow> bool" where
  "dot_name p = (last_name p = ''.'' \<or> last_name p = ''..'')"

definition os_rmdir :: "string \<Rightarrow> world \<Rightarrow> unit outcome \<times> world" where
  "os_rmdir p w =
     (case resolve w False p of
        Found q Dir \<Rightarrow>
          (if last_name p = ''.'' then (Raised OSError_EINVAL, w)
           else if last_name p = ''..'' then (Raised OSError_ENOTEMPTY, w)
           else if q = [] then (Raised OSError_EBUSY, w)
           else if fs_children (files w) q \<noteq> [] then (Raised OSError_ENOTEMPTY, w)
           else (Returned (), w\<lparr>files := fs_delete (files w) q\<rparr>))
      | Found q _ \<Rightarrow> (Raised NotADirectoryError, w)
      | Absent q \<Rightarrow> (Raised FileNotFoundError, w)
      | Failed e \<Rightarrow> (Raised e, w))"

text \<open>\<open>os.mkdir(p)\<close>; the kernel accepts trailing separators on the new name.\<close>

definition os_mkdir :: "string \<Rightarrow> world \<Rightarrow> unit outcome \<times> world" where
  "os_mkdir p w =
     (case resolve w False (if list_all (\<lambda>c. c = CHR ''/'') p then p else py_rstrip ''/'' p) of
        Absent q \<Rightarrow> (Returned (), w\<lparr>files := fs_put (files w) q Dir\<rparr>)
      | Found q n \<Rightarrow> (Raised FileExistsError, w)
      | Failed e \<Rightarrow> (Raised e, w))"

lemma path_split_head_le: "length (fst (path_split p)) \<le> length p"
proof -
  have a: "length (dropWhile P (rev p)) \<le> length p" for P
    using length_dropWhile_le[of P "rev p"] by simp
  have b: "length (py_rstrip cs s) \<le> length s" for cs s
    using length_dropWhile_le[of "\<lambda>c. c \<in> set cs" "rev s"] by (simp add: py_rstrip_def)
  show ?thesis
    using a b[of "''/''" "rev (dropWhile (\<lambda>c. c \<noteq> CHR ''/'') (rev p))"]
    by (auto simp: path_split_def Let_def intro: order_trans)
qed

lemma path_split_head_less:
  assumes "snd (path_split p) \<noteq> []"
  shows "length (fst (path_split p)) < length p"
proof -
  let ?P = "\<lambda>c. c \<noteq> CHR ''/''"
  have t: "takeWhile ?P (rev p) \<noteq> []" using assms by (simp add: path_split_def Let_def)
  have "length (takeWhile ?P (rev p)) + length (dropWhile ?P (rev p)) = length p"
    using takeWhile_dropWhile_id[of ?P "rev p"] by (metis length_append length_rev)
  then have d: "length (dropWhile ?P (rev p)) < length p" using t by (cases "takeWhile ?P (rev p)") auto
  have b: "length (py_rstrip cs s) \<le> length s" for cs s
    using length_dropWhile_le[of "\<lambda>c. c \<in> set cs" "rev s"] by (simp add: py_rstrip_def)
  show ?thesis
    using d b[of "''/''" "rev (dropWhile ?P (rev p))"]
    by (auto simp: path_split_def Let_def)
qed

text \<open>\<open>os.mkdir\<close> at the end of \<open>os.makedirs(name, exist_ok=...)\<close>: with \<open>exist_ok\<close>, an
  \<open>OSError\<close> is dropped when \<open>name\<close> is a directory afterwards.\<close>

definition mkdir_exist_ok :: "string \<Rightarrow> bool \<Rightarrow> world \<Rightarrow> unit outcome \<times> world" where
  "mkdir_exist_ok name exist_ok w =
     (case os_mkdir name w of
        (Raised e, w1) \<Rightarrow>
          if \<not> exist_ok \<or> \<not> os_path_isdir w1 name then (Raised e, w1) else (Returned (), w1)
      | (Returned u, w1) \<Rightarrow> (Returned (), w1))"

text \<open>\<open>os.makedirs(name, exist_ok=...)\<close>, after the library's source: the missing head is
  made first, a \<open>FileExistsError\<close> of that call is ignored, and a tail \<open>.\<close> ends the
  call.\<close>

function os_makedirs :: "string \<Rightarrow> bool \<Rightarrow> world \<Rightarrow> unit outcome \<times> world" where
  "os_makedirs name exist_ok w =
     (let head = (if snd (path_split name) = [] then fst (path_split (fst (path_split name)))
                  else fst (path_split name));
          tail = (if snd (path_split name) = [] then snd (path_split (fst (path_split name)))
                  else snd (path_split name))
      in if head \<noteq> [] \<and> tail \<noteq> [] \<and> \<not> os_path_exists w head then
           (case os_makedirs head exist_ok w of
              (Raised e, w1) \<Rightarrow>
                if e = FileExistsError
                then (if tail = ''.'' then (Returned (), w1) else mkdir_exist_ok name exist_ok w1)
                else (Raised e, w1)
            | (Returned u, w1) \<Rightarrow>
                if tail = ''.'' then (Returned (), w1) else mkdir_exist_ok name exist_ok w1)
         else mkdir_exist_ok name exist_ok w)"
  by pat_completeness auto
termination
proof (relation "measure (\<lambda>(name, exist_ok, w). length name)")
  show "wf (measure (\<lambda>(name, exist_ok, w). length name))" by simp
next
  fix name :: string and exist_ok :: bool and w :: world and x xa
  assume x: "x = (if snd (path_split name) = [] then fst (path_split (fst (path_split name)))
                  else fst (path_split name))"
    and xa: "xa = (if snd (path_split name) = [] then snd (path_split (fst (path_split name)))
                  else snd (path_split name))"
    and c: "x \<noteq> [] \<and> xa \<noteq> [] \<and> \<not> os_path_exists w x"
  have "length x < length name"
  proof (cases "snd (path_split name) = []")
    case True
    then have "snd (path_split (fst (path_split name))) \<noteq> []" using xa c by simp
    from path_split_head_less[OF this] path_split_head_le[of name] True x
    show ?thesis by simp
  next
    case False
    from path_split_head_less[OF this] False x show ?thesis by simp
  qed
  then show "((x, exist_ok, w), (name, exist_ok, w)) \<in> measure (\<lambda>(name, exist_ok, w). length name)"
    by simp
qed

declare os_makedirs.simps [simp del]

text \<open>\<open>open(p, 'a').close()\<close>: an absent file is created empty, an existing file is
  left as it is; the link at the last name is followed.\<close>

definition open_append :: "string \<Rightarrow> world \<Rightarrow> unit outcome \<times> world" where
  "open_append p w =
     (case resolve w True p of
        Found q (File d) \<Rightarrow> (Returned (), w)
      | Found q Dir \<Rightarrow> (Raised IsADirectoryError, w)
      | Found q (Link t) \<Rightarrow> (Raised OSError_ELOOP, w)
      | Absent q \<Rightarrow> (Returned (), w\<lparr>files := fs_put (files w) q (File [])\<rparr>)
      | Failed e \<Rightarrow> (Raised e, w))"

text \<open>
  \<open>os.rename(a, b)\<close>: neither last name is followed. Locations on different devices
  give \<open>EXDEV\<close>; a last name \<open>.\<close> or \<open>..\<close> is refused; a directory only replaces an empty
  directory, a file or link only a file or link; a directory cannot move below itself.
\<close>

definition os_rename :: "string \<Rightarrow> string \<Rightarrow> world \<Rightarrow> unit outcome \<times> world" where
  "os_rename a b w =
     (case resolve w False a of
        Failed e \<Rightarrow> (Raised e, w)
      | Absent pa \<Rightarrow> (Raised FileNotFoundError, w)
      | Found pa na \<Rightarrow>
         (case resolve w False b of
            Failed e \<Rightarrow> (Raised e, w)
          | Absent pb \<Rightarrow>
              (if device w pa \<noteq> device w pb then (Raised OSError_EXDEV, w)
               else if dot_name a \<or> dot_name b then (Raised OSError_EBUSY, w)
               else if pa = [] then (Raised OSError_EBUSY, w)
               else if na = Dir \<and> prefix pa pb then (Raised OSError_EINVAL, w)
               else (Returned (), w\<lparr>files := fs_move (files w) pa pb\<rparr>))
          | Found pb nb \<Rightarrow>
              (if device w pa \<noteq> device w pb then (Raised OSError_EXDEV, w)
               else if dot_name a \<or> dot_name b then (Raised OSError_EBUSY, w)
               else if pa = pb then (Returned (), w)
               else if pa = [] \<or> pb = [] then (Raised OSError_EBUSY, w)
               else if na = Dir \<and> prefix pa pb then (Raised OSError_EINVAL, w)
               else if na = Dir \<and> nb \<noteq> Dir then (Raised NotADirectoryError, w)
               else if na = Dir \<and> fs_children (files w) pb \<noteq> [] then (Raised OSError_ENOTEMPTY, w)
               else if na \<noteq> Dir \<and> nb = Dir then (Raised IsADirectoryError, w)
               else (Returned (), w\<lparr>files := fs_move (files w) pa pb\<rparr>))))"

text \<open>
  \<open>os.path.abspath\<close>: the names of the path after the working directory, with \<open>.\<close>
  dropped and \<open>..\<close> taking back a name, no link being read.
\<close>

fun normpath_names :: "path \<Rightarrow> string list \<Rightarrow> path" where
  "normpath_names cur [] = cur"
| "normpath_names cur (c # cs) =
     (if c = ''.'' then normpath_names cur cs
      else if c = ''..'' then normpath_names (butlast cur) cs
      else normpath_names (cur @ [c]) cs)"

definition abspath :: "world \<Rightarrow> string \<Rightarrow> path" where
  "abspath w p = normpath_names (if startswith p ''/'' then [] else cwd w) (components p)"

text \<open>\<open>_destinsrc\<close> of \<open>shutil\<close>: the absolute destination starts with the absolute
  source followed by a separator.\<close>

definition destinsrc :: "world \<Rightarrow> string \<Rightarrow> string \<Rightarrow> bool" where
  "destinsrc w src dst = prefix (abspath w src) (abspath w dst)"

text \<open>
  \<open>shutil.copy2(src, dst)\<close>: a destination that is a directory receives the file under
  the name of \<open>src\<close>; copying a file onto itself is an error; the file is written
  through a link at the destination.
\<close>

definition copy2 :: "string \<Rightarrow> string \<Rightarrow> world \<Rightarrow> unit outcome \<times> world" where
  "copy2 src dst w =
     (let dst = (if os_path_isdir w dst then path_join dst (basename src) else dst)
      in case resolve w True src of
           Failed e \<Rightarrow> (Raised e, w)
         | Absent pa \<Rightarrow> (Raised FileNotFoundError, w)
         | Found pa Dir \<Rightarrow> (Raised IsADirectoryError, w)
         | Found pa (Link t) \<Rightarrow> (Raised OSError_ELOOP, w)
         | Found pa (File d) \<Rightarrow>
             (case resolve w True dst of
                Failed e \<Rightarrow> (Raised e, w)
              | Found pb Dir \<Rightarrow> (Raised IsADirectoryError, w)
              | Found pb nb \<Rightarrow>
                  if pa = pb then (Raised ShutilError, w)
                  else (Returned (), w\<lparr>files := fs_put (files w) pb (File d)\<rparr>)
              | Absent pb \<Rightarrow> (Returned (), w\<lparr>files := fs_put (files w) pb (File d)\<rparr>)))"

text \<open>
  \<open>shutil.copytree(src, dst, symlinks=True)\<close> followed by \<open>shutil.rmtree(src)\<close>, for a
  destination outside the source tree: \<open>copytree\<close> makes the destination with
  \<open>os.makedirs(dst)\<close>, which fails when it exists, and copies every entry below \<open>src\<close>,
  links as links; \<open>rmtree\<close> then removes the source tree. Copying and removing a tree
  is the move of its entries.
\<close>

definition copytree_rmtree :: "string \<Rightarrow> string \<Rightarrow> world \<Rightarrow> unit outcome \<times> world" where
  "copytree_rmtree src dst w =
     (case resolve w True src of
        Failed e \<Rightarrow> (Raised e, w)
      | Absent pa \<Rightarrow> (Raised FileNotFoundError, w)
      | Found pa (File d) \<Rightarrow> (Raised NotADirectoryError, w)
      | Found pa (Link t) \<Rightarrow> (Raised OSError_ELOOP, w)
      | Found pa Dir \<Rightarrow>
          (case os_makedirs dst False w of
             (Raised e, w1) \<Rightarrow> (Raised e, w1)
           | (Returned u, w1) \<Rightarrow>
               (case resolve w1 True dst of
                  Found pb Dir \<Rightarrow>
                    if pa = [] then (Raised OSError_EBUSY, w1)
                    else (Returned (), w1\<lparr>files := fs_move (files w1) pa pb\<rparr>)
                | Found pb nb \<Rightarrow> (Raised NotADirectoryError, w1)
                | Absent pb \<Rightarrow> (Raised FileNotFoundError, w1)
                | Failed e \<Rightarrow> (Raised e, w1))))"

text \<open>
  The branch of \<open>shutil.move\<close> taken when \<open>os.rename\<close> raises an \<open>OSError\<close>: a link is
  made anew and the old one removed; a directory is copied and then removed, unless
  the destination lies in it; a file is copied and then removed.
\<close>

definition move_across :: "string \<Rightarrow> string \<Rightarrow> string \<Rightarrow> world \<Rightarrow> unit outcome \<times> world" where
  "move_across src dst real_dst w =
     (if os_path_islink w src then
        (case os_readlink w src of
           Raised e \<Rightarrow> (Raised e, w)
         | Returned linkto \<Rightarrow>
             (case os_symlink linkto real_dst w of
                (Raised e, w1) \<Rightarrow> (Raised e, w1)
              | (Returned u, w1) \<Rightarrow> os_remove src w1))
      else if os_path_isdir w src then
        (if destinsrc w src dst then (Raised ShutilError, w)
         else copytree_rmtree src real_dst w)
      else
        (case copy2 src real_dst w of
           (Raised e, w1) \<Rightarrow> (Raised e, w1)
         | (Returned u, w1) \<Rightarrow> os_remove src w1))"

text \<open>\<open>os.path.samefile\<close> as \<open>shutil\<close> uses it: both paths resolve to one location.\<close>

definition samefile :: "world \<Rightarrow> string \<Rightarrow> string \<Rightarrow> bool" where
  "samefile w a b =
     (case resolve w True a of
        Found pa na \<Rightarrow> (case resolve w True b of Found pb nb \<Rightarrow> pa = pb | _ \<Rightarrow> False)
      | _ \<Rightarrow> False)"

text \<open>
  \<open>shutil.move(src, dst)\<close>, after the library's source: a destination that is a
  directory receives the source under the source's own name; \<open>os.rename\<close> is tried, and
  when it raises (every error of \<open>os.rename\<close> is an \<open>OSError\<close>) the copying branch is
  taken.
\<close>

definition shutil_move :: "string \<Rightarrow> string \<Rightarrow> world \<Rightarrow> unit outcome \<times> world" where
  "shutil_move src dst w =
     (if os_path_isdir w dst \<and> samefile w src dst \<and> \<not> os_path_islink w src
      then os_rename src dst w
      else
       (let real_dst = (if os_path_isdir w dst then path_join dst (last_name src) else dst)
        in if os_path_isdir w dst \<and> os_path_exists w real_dst then (Raised ShutilError, w)
           else (case os_rename src real_dst w of
               (Raised e, w1) \<Rightarrow> move_across src dst real_dst w1
             | (Returned u, w1) \<Rightarrow> (Returned (), w1))))"

section \<open>The program\<close>

text \<open>\<open>is_same_device\<close>, lines 19 to 23.\<close>

definition is_same_device :: "string \<Rightarrow> string \<Rightarrow> world \<Rightarrow> bool outcome" where
  "is_same_device path1 path2 w =
     (case os_stat_dev w path1 of
        Raised e \<Rightarrow> Raised e
      | Returned dev1 \<Rightarrow>
          (case os_stat_dev w path2 of
             Raised e \<Rightarrow> Raised e
           | Returned dev2 \<Rightarrow> Returned (dev1 = dev2)))"

text \<open>\<open>input()\<close> reads the next line of standard input and raises \<open>EOFError\<close> at its end.\<close>

definition py_input :: "world \<Rightarrow> string outcome \<times> world" where
  "py_input w =
     (case stdin w of
        [] \<Rightarrow> (Raised EOFError, w)
      | l # ls \<Rightarrow> (Returned l, w\<lparr>stdin := ls\<rparr>))"

text \<open>\<open>confirm_move\<close>, lines 25 to 31.\<close>

definition confirm_move :: "string \<Rightarrow> string \<Rightarrow> world \<Rightarrow> bool outcome \<times> world" where
  "confirm_move src dst w =
     (case is_same_device src (dirname dst) w of
        Raised e \<Rightarrow> (Raised e, w)
      | Returned same \<Rightarrow>
          if \<not> same then
            (case py_input (print (PromptOtherDevice src dst) w) of
               (Raised e, w1) \<Rightarrow> (Raised e, w1)
             | (Returned response, w1) \<Rightarrow> (Returned (py_lower (py_strip response) = ''y''), w1))
          else (Returned True, w))"

text \<open>\<open>handle_path_conflict\<close>, lines 33 to 42.\<close>

definition handle_path_conflict :: "string \<Rightarrow> bool \<Rightarrow> world \<Rightarrow> bool \<times> world" where
  "handle_path_conflict src is_dir w =
     (if os_path_exists w src then
        (if is_dir \<and> \<not> os_path_isdir w src then (False, print (WarnNeedsDir src) w)
         else if \<not> is_dir \<and> \<not> os_path_isfile w src then (False, print (WarnNeedsFile src) w)
         else (True, w))
      else (True, w))"

text \<open>
  The parsed configuration, as the program reads it: \<open>config["dirs"].items()\<close> is the
  list \<open>dirs\<close> of storage identifiers with their base directories, and
  \<open>config[storage_id].items()\<close> is the list of the keys of that section (their values
  are not read); a storage without a section raises \<open>KeyError\<close>.
\<close>

record config =
  dirs :: "(string \<times> string) list"
  sections :: "(string \<times> string list) list"

text \<open>The inner loop of \<open>apply_additions\<close>, lines 48 to 59, over the keys of one section.\<close>

fun additions_of_section ::
  "string \<Rightarrow> string \<Rightarrow> string list \<Rightarrow> task list \<Rightarrow> world \<Rightarrow> task list \<times> world" where
  "additions_of_section home base_dir [] tasks w = (tasks, w)"
| "additions_of_section home base_dir (raw_path # rest) tasks w =
     (case addition_decl home base_dir raw_path of
        None \<Rightarrow> additions_of_section home base_dir rest tasks w
      | Some (src, dst, is_dir) \<Rightarrow>
          (case handle_path_conflict src is_dir w of
             (False, w1) \<Rightarrow> additions_of_section home base_dir rest tasks w1
           | (True, w1) \<Rightarrow>
               additions_of_section home base_dir rest (tasks @ [(src, dst, is_dir)]) w1))"

text \<open>The outer loop, line 47, over the storages.\<close>

fun additions_of_config ::
  "string \<Rightarrow> config \<Rightarrow> (string \<times> string) list \<Rightarrow> task list \<Rightarrow> world
     \<Rightarrow> task list outcome \<times> world" where
  "additions_of_config home cfg [] tasks w = (Returned tasks, w)"
| "additions_of_config home cfg ((storage_id, base_dir) # ds) tasks w =
     (case map_of (sections cfg) storage_id of
        None \<Rightarrow> (Raised KeyError, w)
      | Some keys \<Rightarrow>
          (case additions_of_section home base_dir keys tasks w of
             (tasks1, w1) \<Rightarrow> additions_of_config home cfg ds tasks1 w1))"

text \<open>The creation of the link that ends an iteration, lines 83 and 84.\<close>

definition link_and_report :: "string \<Rightarrow> string \<Rightarrow> world \<Rightarrow> unit outcome \<times> world" where
  "link_and_report src dst w =
     (case os_symlink dst src w of
        (Raised e, w1) \<Rightarrow> (Raised e, w1)
      | (Returned u, w1) \<Rightarrow> (Returned (), print (LinkCreated src dst) w1))"

text \<open>One iteration of the second loop of \<open>apply_additions\<close>, lines 63 to 84.\<close>

definition addition_step :: "task \<Rightarrow> world \<Rightarrow> unit outcome \<times> world" where
  "addition_step t w =
     (case t of (src, dst, is_dir) \<Rightarrow>
        if os_path_islink w src then
          (case os_readlink w src of
             Raised e \<Rightarrow> (Raised e, w)
           | Returned target \<Rightarrow>
               if target = dst then (Returned (), print (InfoAlreadyConfigured src) w)
               else link_and_report src dst (print (ErrorWrongSymlink src) w))
        else if os_path_exists w src then
          (let w1 = (if os_path_exists w dst then print (ErrorDstExists dst src) w else w)
           in case confirm_move src dst w1 of
                (Raised e, w2) \<Rightarrow> (Raised e, w2)
              | (Returned ok, w2) \<Rightarrow>
                  if \<not> ok then (Returned (), print (InfoMoveCancelled src) w2)
                  else (case shutil_move src dst w2 of
                          (Raised e, w3) \<Rightarrow> (Raised e, w3)
                        | (Returned u, w3) \<Rightarrow> link_and_report src dst w3))
        else
          (case (if is_dir then os_makedirs dst True w else open_append dst w) of
             (Raised e, w1) \<Rightarrow> (Raised e, w1)
           | (Returned u, w1) \<Rightarrow> link_and_report src dst w1))"

text \<open>The second loop: an exception ends the pass.\<close>

fun additions_loop :: "task list \<Rightarrow> world \<Rightarrow> unit outcome \<times> world" where
  "additions_loop [] w = (Returned (), w)"
| "additions_loop (t # ts) w =
     (case addition_step t w of
        (Raised e, w1) \<Rightarrow> (Raised e, w1)
      | (Returned u, w1) \<Rightarrow> additions_loop ts w1)"

text \<open>\<open>apply_additions\<close>, lines 44 to 84.\<close>

definition apply_additions :: "string \<Rightarrow> config \<Rightarrow> world \<Rightarrow> unit outcome \<times> world" where
  "apply_additions home cfg w =
     (case additions_of_config home cfg (dirs cfg) [] w of
        (Raised e, w1) \<Rightarrow> (Raised e, w1)
      | (Returned tasks, w1) \<Rightarrow> additions_loop (additions_order tasks) w1)"

text \<open>The loops of \<open>apply_removals\<close>, lines 89 to 102.\<close>

fun removals_of_section ::
  "string \<Rightarrow> string \<Rightarrow> string list \<Rightarrow> task list \<Rightarrow> world \<Rightarrow> task list \<times> world" where
  "removals_of_section home base_dir [] tasks w = (tasks, w)"
| "removals_of_section home base_dir (raw_path # rest) tasks w =
     (case removal_decl home base_dir raw_path of
        None \<Rightarrow> removals_of_section home base_dir rest tasks w
      | Some (src, dst, is_dir) \<Rightarrow>
          (case handle_path_conflict src is_dir w of
             (False, w1) \<Rightarrow> removals_of_section home base_dir rest tasks w1
           | (True, w1) \<Rightarrow>
               removals_of_section home base_dir rest (tasks @ [(src, dst, is_dir)]) w1))"

fun removals_of_config ::
  "string \<Rightarrow> config \<Rightarrow> (string \<times> string) list \<Rightarrow> task list \<Rightarrow> world
     \<Rightarrow> task list outcome \<times> world" where
  "removals_of_config home cfg [] tasks w = (Returned tasks, w)"
| "removals_of_config home cfg ((storage_id, base_dir) # ds) tasks w =
     (case map_of (sections cfg) storage_id of
        None \<Rightarrow> (Raised KeyError, w)
      | Some keys \<Rightarrow>
          (case removals_of_section home base_dir keys tasks w of
             (tasks1, w1) \<Rightarrow> removals_of_config home cfg ds tasks1 w1))"

text \<open>The clean-up of the backing directory, lines 119 to 121.\<close>

definition remove_store_dir :: "string \<Rightarrow> world \<Rightarrow> unit outcome \<times> world" where
  "remove_store_dir dst w =
     (if os_path_isdir w dst then
        (case os_listdir w dst of
           Raised e \<Rightarrow> (Raised e, w)
         | Returned names \<Rightarrow>
             if names = [] then
               (case os_rmdir dst w of
                  (Raised e, w1) \<Rightarrow> (Raised e, w1)
                | (Returned u, w1) \<Rightarrow> (Returned (), print (StoreDirRemoved dst) w1))
             else (Returned (), w))
      else (Returned (), w))"

text \<open>One iteration of the second loop of \<open>apply_removals\<close>, lines 106 to 123.\<close>

definition removal_step :: "task \<Rightarrow> world \<Rightarrow> unit outcome \<times> world" where
  "removal_step t w =
     (case t of (src, dst, is_dir) \<Rightarrow>
        if os_path_islink w src \<and> os_readlink w src = Returned dst then
          (case os_remove src w of
             (Raised e, w1) \<Rightarrow> (Raised e, w1)
           | (Returned u, w1) \<Rightarrow>
               (let w2 = print (LinkRemoved src dst) w1
                in if os_path_exists w2 dst then
                     (case confirm_move dst src w2 of
                        (Raised e, w3) \<Rightarrow> (Raised e, w3)
                      | (Returned ok, w3) \<Rightarrow>
                          if \<not> ok then (Returned (), print (SkipMoveBack dst src) w3)
                          else (case os_makedirs (dirname src) True w3 of
                                  (Raised e, w4) \<Rightarrow> (Raised e, w4)
                                | (Returned u, w4) \<Rightarrow>
                                    (case shutil_move dst src w4 of
                                       (Raised e, w5) \<Rightarrow> (Raised e, w5)
                                     | (Returned u, w5) \<Rightarrow> remove_store_dir dst w5)))
                   else remove_store_dir dst w2))
        else (Returned (), print (WarnNotCorrectLink src) w))"

fun removals_loop :: "task list \<Rightarrow> world \<Rightarrow> unit outcome \<times> world" where
  "removals_loop [] w = (Returned (), w)"
| "removals_loop (t # ts) w =
     (case removal_step t w of
        (Raised e, w1) \<Rightarrow> (Raised e, w1)
      | (Returned u, w1) \<Rightarrow> removals_loop ts w1)"

text \<open>\<open>apply_removals\<close>, lines 86 to 123.\<close>

definition apply_removals :: "string \<Rightarrow> config \<Rightarrow> world \<Rightarrow> unit outcome \<times> world" where
  "apply_removals home cfg w =
     (case removals_of_config home cfg (dirs cfg) [] w of
        (Raised e, w1) \<Rightarrow> (Raised e, w1)
      | (Returned tasks, w1) \<Rightarrow> removals_loop (removals_order tasks) w1)"

text \<open>\<open>apply\<close>, lines 125 to 129, on the configuration that \<open>read_config\<close> returned.\<close>

definition apply_config :: "string \<Rightarrow> config \<Rightarrow> world \<Rightarrow> unit outcome \<times> world" where
  "apply_config home cfg w =
     (case apply_additions home cfg w of
        (Raised e, w1) \<Rightarrow> (Raised e, w1)
      | (Returned u, w1) \<Rightarrow> apply_removals home cfg w1)"

section \<open>Names for the statements\<close>

text \<open>The home-relative path of a declaration: \<open>base_path\<close> of line 52 and of line 95.\<close>

definition addition_base_path :: "string \<Rightarrow> string" where
  "addition_base_path raw_path = py_rstrip ''/'' (py_replace ''HOME/'' [] raw_path)"

definition removal_base_path :: "string \<Rightarrow> string" where
  "removal_base_path raw_path =
     py_rstrip ''/'' (py_replace_first ''HOME/'' [] (py_lstrip (drop 1 raw_path)))"

text \<open>The keys that a pass reads, in the order of its two loops.\<close>

definition section_keys :: "config \<Rightarrow> string \<Rightarrow> string list" where
  "section_keys cfg storage_id =
     (case map_of (sections cfg) storage_id of None \<Rightarrow> [] | Some keys \<Rightarrow> keys)"

definition addition_keys :: "config \<Rightarrow> string list" where
  "addition_keys cfg =
     concat (map (\<lambda>d. filter (\<lambda>r. \<not> startswith r ''-'') (section_keys cfg (fst d))) (dirs cfg))"

definition removal_keys :: "config \<Rightarrow> string list" where
  "removal_keys cfg =
     concat (map (\<lambda>d. filter (\<lambda>r. startswith r ''-'') (section_keys cfg (fst d))) (dirs cfg))"

text \<open>Worlds and configurations of the examples: the home directory is \<open>/h\<close>, the one
  storage \<open>st\<close> has the base directory \<open>/s\<close>, everything is on one device.\<close>

definition example_world :: "filesystem \<Rightarrow> world" where
  "example_world fs = \<lparr>files = fs, cwd = [], mounts = [], stdin = [], stdout = []\<rparr>"

definition example_config :: "string list \<Rightarrow> config" where
  "example_config keys = \<lparr>dirs = [(''st'', ''/s'')], sections = [(''st'', keys)]\<rparr>"

text \<open>\<open>/h/bb\<close> is a link to another place than its \<open>dst\<close>, \<open>/h/a\<close> is a file.\<close>

definition wrong_link_files :: filesystem where
  "wrong_link_files =
     [([''h''], Dir), ([''s''], Dir), ([''h'', ''bb''], Link ''/elsewhere''),
      ([''h'', ''a''], File ''data'')]"

text \<open>\<open>/h/d\<close> is a link to a path that does not exist.\<close>

definition dangling_files :: filesystem where
  "dangling_files = [([''h''], Dir), ([''s''], Dir), ([''h'', ''d''], Link ''/nowhere'')]"

text \<open>\<open>/h/f\<close> is a file and \<open>/h/g\<close> a directory.\<close>

definition plain_files :: filesystem where
  "plain_files = [([''h''], Dir), ([''s''], Dir), ([''h'', ''f''], File ''data''), ([''h'', ''g''], Dir)]"



text \<open>Four declarations whose \<open>src\<close> have three different lengths, and their tasks.\<close>

definition order_keys :: "string list" where
  "order_keys = [''a'', ''ccc'', ''bb'', ''dd'']"

definition order_tasks :: "task list" where
  "order_tasks =
     [(''/h/a'', ''/s/a'', False), (''/h/ccc'', ''/s/ccc'', False),
      (''/h/bb'', ''/s/bb'', False), (''/h/dd'', ''/s/dd'', False)]"

section \<open>Canonical paths and views of the filesystem\<close>




text \<open>Two locations are apart when neither lies at or below the other.\<close>

definition apart :: "path \<Rightarrow> path \<Rightarrow> bool" where
  "apart a b = (\<not> prefix a b \<and> \<not> prefix b a)"





type_synonym move = "path \<times> path \<times> string"


























text \<open>A configuration whose base directory lies in the home directory, with a
  declaration inside it: the \<open>dst\<close> of \<open>zz\<close> is the \<open>src\<close> of \<open>store/zz\<close>.\<close>

definition overlap_world :: world where
  "overlap_world =
     example_world [([''h''], Dir), ([''h'', ''store''], Dir), ([''h'', ''zz''], File ''data'')]"

definition overlap_config :: config where
  "overlap_config =
     \<lparr>dirs = [(''st'', ''/h/store'')], sections = [(''st'', [''store/zz'', ''zz''])]\<rparr>"



text \<open>
  Two moves are independent when their four locations are pairwise apart. A move \<open>n\<close>
  may be added after \<open>m\<close> when their stores are apart and the \<open>src\<close> of \<open>m\<close> is not at or
  above the \<open>src\<close> of \<open>n\<close>; \<open>m\<close> may be removed before \<open>n\<close> when the \<open>src\<close> of \<open>m\<close> is not
  below the \<open>src\<close> of \<open>n\<close>.
\<close>

definition indep :: "move \<Rightarrow> move \<Rightarrow> bool" where
  "indep m n =
     (apart (fst m) (fst n) \<and> apart (fst m) (fst (snd n)) \<and>
      apart (fst (snd m)) (fst n) \<and> apart (fst (snd m)) (fst (snd n)))"
















section \<open>Properties of the string functions\<close>

lemma py_replace_single:
  "py_replace [x] new s = concat (map (\<lambda>c. if c = x then new else [c]) s)"
  by (induction s) auto

lemma escape_separators_append:
  "escape_separators (a @ b) = escape_separators a @ escape_separators b"
  by (simp add: escape_separators_def py_replace_single)

lemma home_border:
  assumes "prefix ''HOME'' (xs @ ''HOME'' @ b)" "xs \<noteq> []"
  shows "prefix ''HOME'' xs"
proof -
  from assms(1) have "prefix ''HOME'' xs \<or> (\<exists>us. ''HOME'' = xs @ us \<and> prefix us (''HOME'' @ b))"
    by (simp only: prefix_append)
  then show ?thesis
  proof
    assume "prefix ''HOME'' xs" then show ?thesis .
  next
    assume "\<exists>us. ''HOME'' = xs @ us \<and> prefix us (''HOME'' @ b)"
    then obtain us where "''HOME'' = xs @ us" "prefix us (''HOME'' @ b)" by blast
    then show ?thesis using assms(2)
      by (auto simp: Cons_eq_append_conv prefix_Cons)
  qed
qed

lemma py_replace_home_step:
  "\<not> prefix ''HOME'' (c # t) \<Longrightarrow> py_replace ''HOME'' home (c # t) = c # py_replace ''HOME'' home t"
  by auto

lemma py_replace_home_token:
  "\<not> sublist ''HOME'' a \<Longrightarrow>
   py_replace ''HOME'' home (a @ ''HOME'' @ b) = a @ home @ py_replace ''HOME'' home b"
proof (induction a)
  case Nil
  then show ?case by simp
next
  case (Cons c cs)
  have np: "\<not> prefix ''HOME'' (c # cs)" using Cons.prems
    by (metis prefix_imp_sublist)
  have ns: "\<not> sublist ''HOME'' cs" using Cons.prems
    by (metis sublist_Cons_right)
  have "\<not> prefix ''HOME'' (c # (cs @ ''HOME'' @ b))"
    using np home_border[of "c # cs" b] by auto
  from py_replace_home_step[OF this] show ?case using Cons.IH[OF ns] by simp
qed

subsection \<open>C4: the leaf name is not injective\<close>

text \<open>
  C4 states that distinct home-relative paths always get distinct leaf names. The
  encoding doubles every dash and then writes a dash for every separator, so a
  separator followed by a dash and a dash followed by a separator both become three
  dashes: the paths \<open>a/-b\<close> and \<open>a-/b\<close> get the same leaf name and, in one storage,
  the same \<open>dst\<close>, although their \<open>src\<close> differ. The strip of trailing dashes also
  maps \<open>a-\<close> and \<open>a\<close> to one name.
\<close>

theorem safe_name_collision:
  "safe_name home ''a/-b'' = safe_name home ''a-/b'' \<and> ''a/-b'' \<noteq> ''a-/b'' \<and>
   safe_name home ''a-'' = safe_name home ''a'' \<and>
   fst (snd (addition_task home base_dir ''a/-b'')) = fst (snd (addition_task home base_dir ''a-/b'')) \<and>
   fst (addition_task ''/h'' base_dir ''a/-b'') \<noteq> fst (addition_task ''/h'' base_dir ''a-/b'')"
  by (simp add: safe_name_def normalize_path_def py_rstrip_def addition_task_def Let_def
      path_join_def startswith_def endswith_def suffix_to_prefix)

subsection \<open>C5: removal and addition derive different paths\<close>

text \<open>
  C5 states that the removal pass derives from \<open>"-" + p\<close> the \<open>src\<close> and \<open>dst\<close> that the
  addition pass derives from \<open>p\<close>. The addition pass deletes every occurrence of
  \<open>HOME/\<close>, the removal pass only the first: for \<open>p = HOME/a/HOME/b\<close> addition manages
  \<open>/h/a/b\<close> and removal looks for \<open>/h/a/HOME/b\<close>.
\<close>

theorem removal_task_differs:
  "addition_decl ''/h'' ''/s'' ''HOME/a/HOME/b'' = Some (''/h/a/b'', ''/s/a-b'', False) \<and>
   removal_decl ''/h'' ''/s'' (''-'' @ ''HOME/a/HOME/b'') = Some (''/h/a/HOME/b'', ''/s/a--h-b'', False)"
  by (simp add: addition_decl_def removal_decl_def addition_task_def removal_task_def
      normalize_path_def py_rstrip_def py_lstrip_def py_isspace_def path_join_def
      startswith_def endswith_def suffix_to_prefix Let_def)

subsection \<open>C6: the processing orders\<close>

text \<open>The second loop of either pass handles a list of tasks from left to right: the
  tasks after the first part run in the world that the first part left, and not at all
  when it raised.\<close>

lemma additions_loop_append:
  "additions_loop (xs @ ys) w =
     (case additions_loop xs w of
        (Raised e, w1) \<Rightarrow> (Raised e, w1)
      | (Returned u, w1) \<Rightarrow> additions_loop ys w1)"
proof (induction xs arbitrary: w)
  case Nil
  show ?case by simp
next
  case (Cons t xs)
  show ?case
  proof (cases "addition_step t w")
    case (Pair r w1)
    then show ?thesis using Cons.IH[of w1] by (cases r) simp_all
  qed
qed

lemma removals_loop_append:
  "removals_loop (xs @ ys) w =
     (case removals_loop xs w of
        (Raised e, w1) \<Rightarrow> (Raised e, w1)
      | (Returned u, w1) \<Rightarrow> removals_loop ys w1)"
proof (induction xs arbitrary: w)
  case Nil
  show ?case by simp
next
  case (Cons t xs)
  show ?case
  proof (cases "removal_step t w")
    case (Pair r w1)
    then show ?thesis using Cons.IH[of w1] by (cases r) simp_all
  qed
qed

text \<open>The two orders: sorted by the length of \<open>src\<close>, permutations of the task list,
  tasks of equal length in their input order.\<close>

lemma order_facts:
  "sorted_wrt (\<lambda>a b. length (fst b) \<le> length (fst a)) (additions_order ts) \<and>
   mset (additions_order ts) = mset ts \<and>
   filter (\<lambda>t. length (fst t) = n) (additions_order ts) = filter (\<lambda>t. length (fst t) = n) ts \<and>
   sorted_wrt (\<lambda>a b. length (fst a) \<le> length (fst b)) (removals_order ts) \<and>
   mset (removals_order ts) = mset ts \<and>
   filter (\<lambda>t. length (fst t) = n) (removals_order ts) = filter (\<lambda>t. length (fst t) = n) ts"
  for ts :: "task list"
proof -
  let ?k = "\<lambda>t::task. length (fst t)"
  have asc: "sorted (map ?k (sort_key ?k xs))" for xs by simp
  have 1: "sorted_wrt (\<lambda>a b. ?k a \<le> ?k b) (sort_key ?k xs)" for xs
    using asc[of xs] by (simp only: sorted_map)
  have 2: "sorted_wrt (\<lambda>a b. ?k b \<le> ?k a) (rev (sort_key ?k (rev ts)))"
    using 1[of "rev ts"] by (simp only: sorted_wrt_rev)
  have "filter (\<lambda>t. ?k t = n) (rev (sort_key ?k (rev ts)))
      = rev (filter (\<lambda>t. ?k t = n) (sort_key ?k (rev ts)))"
    by (simp only: rev_filter)
  also have "\<dots> = rev (filter (\<lambda>t. ?k t = n) (rev ts))"
    by (simp only: sort_key_stable)
  also have "\<dots> = filter (\<lambda>t. ?k t = n) ts"
    by (simp add: rev_filter)
  finally have 3: "filter (\<lambda>t. ?k t = n) (rev (sort_key ?k (rev ts))) = filter (\<lambda>t. ?k t = n) ts" .
  show ?thesis using 1[of ts] 2 3
    by (simp add: additions_order_def removals_order_def py_sorted_def sort_key_stable)
qed

text \<open>
  C6: \<open>apply_additions\<close> runs its second loop over the tasks it collected in the order
  \<open>additions_order\<close>, which is by descending length of \<open>src\<close>; \<open>apply_removals\<close> runs its
  second loop over the tasks it collected in the order \<open>removals_order\<close>, which is by
  ascending length of \<open>src\<close>. A task \<open>t\<close> of the order is handled after the tasks \<open>xs\<close>
  before it, in the world they left, and before the tasks \<open>ys\<close> after it. Both orders
  are permutations of the collected list, and tasks whose \<open>src\<close> have the same length
  \<open>n\<close> keep their input order.
\<close>

theorem processing_orders:
  "(additions_of_config home cfg (dirs cfg) [] w = (Returned ts, w1) \<longrightarrow>
      apply_additions home cfg w = additions_loop (additions_order ts) w1 \<and>
      (\<forall>xs t ys. additions_order ts = xs @ t # ys \<longrightarrow>
         apply_additions home cfg w =
           (case additions_loop xs w1 of
              (Raised e, w2) \<Rightarrow> (Raised e, w2)
            | (Returned u, w2) \<Rightarrow>
                (case addition_step t w2 of
                   (Raised e, w3) \<Rightarrow> (Raised e, w3)
                 | (Returned u, w3) \<Rightarrow> additions_loop ys w3)))) \<and>
   (removals_of_config home cfg (dirs cfg) [] w = (Returned ts, w1) \<longrightarrow>
      apply_removals home cfg w = removals_loop (removals_order ts) w1 \<and>
      (\<forall>xs t ys. removals_order ts = xs @ t # ys \<longrightarrow>
         apply_removals home cfg w =
           (case removals_loop xs w1 of
              (Raised e, w2) \<Rightarrow> (Raised e, w2)
            | (Returned u, w2) \<Rightarrow>
                (case removal_step t w2 of
                   (Raised e, w3) \<Rightarrow> (Raised e, w3)
                 | (Returned u, w3) \<Rightarrow> removals_loop ys w3)))) \<and>
   sorted_wrt (\<lambda>a b. length (fst b) \<le> length (fst a)) (additions_order ts) \<and>
   mset (additions_order ts) = mset ts \<and>
   filter (\<lambda>t. length (fst t) = n) (additions_order ts) = filter (\<lambda>t. length (fst t) = n) ts \<and>
   sorted_wrt (\<lambda>a b. length (fst a) \<le> length (fst b)) (removals_order ts) \<and>
   mset (removals_order ts) = mset ts \<and>
   filter (\<lambda>t. length (fst t) = n) (removals_order ts) = filter (\<lambda>t. length (fst t) = n) ts"
proof -
  have a: "apply_additions home cfg w = additions_loop (additions_order ts) w1"
    if "additions_of_config home cfg (dirs cfg) [] w = (Returned ts, w1)"
    using that by (simp add: apply_additions_def)
  have a2: "apply_additions home cfg w =
           (case additions_loop xs w1 of
              (Raised e, w2) \<Rightarrow> (Raised e, w2)
            | (Returned u, w2) \<Rightarrow>
                (case addition_step t w2 of
                   (Raised e, w3) \<Rightarrow> (Raised e, w3)
                 | (Returned u, w3) \<Rightarrow> additions_loop ys w3))"
    if "additions_of_config home cfg (dirs cfg) [] w = (Returned ts, w1)"
      "additions_order ts = xs @ t # ys" for xs t ys
    using a[OF that(1)] that(2) additions_loop_append[of xs "t # ys" w1]
    by (simp split: prod.splits outcome.splits)
  have r: "apply_removals home cfg w = removals_loop (removals_order ts) w1"
    if "removals_of_config home cfg (dirs cfg) [] w = (Returned ts, w1)"
    using that by (simp add: apply_removals_def)
  have r2: "apply_removals home cfg w =
           (case removals_loop xs w1 of
              (Raised e, w2) \<Rightarrow> (Raised e, w2)
            | (Returned u, w2) \<Rightarrow>
                (case removal_step t w2 of
                   (Raised e, w3) \<Rightarrow> (Raised e, w3)
                 | (Returned u, w3) \<Rightarrow> removals_loop ys w3))"
    if "removals_of_config home cfg (dirs cfg) [] w = (Returned ts, w1)"
      "removals_order ts = xs @ t # ys" for xs t ys
    using r[OF that(1)] that(2) removals_loop_append[of xs "t # ys" w1]
    by (simp split: prod.splits outcome.splits)
  show ?thesis using a a2 r r2 order_facts[of ts n] by blast
qed

theorem processing_orders_witness:
  "additions_of_config ''/h'' (example_config order_keys) (dirs (example_config order_keys)) []
     (example_world plain_files) = (Returned order_tasks, example_world plain_files) \<and>
   additions_order order_tasks =
     [(''/h/ccc'', ''/s/ccc'', False)] @ (''/h/bb'', ''/s/bb'', False) #
       [(''/h/dd'', ''/s/dd'', False), (''/h/a'', ''/s/a'', False)] \<and>
   apply_additions ''/h'' (example_config order_keys) (example_world plain_files) =
     additions_loop (additions_order order_tasks) (example_world plain_files) \<and>
   apply_additions ''/h'' (example_config order_keys) (example_world plain_files) =
     (case additions_loop [(''/h/ccc'', ''/s/ccc'', False)] (example_world plain_files) of
        (Raised e, w2) \<Rightarrow> (Raised e, w2)
      | (Returned u, w2) \<Rightarrow>
          (case addition_step (''/h/bb'', ''/s/bb'', False) w2 of
             (Raised e, w3) \<Rightarrow> (Raised e, w3)
           | (Returned u, w3) \<Rightarrow>
               additions_loop [(''/h/dd'', ''/s/dd'', False), (''/h/a'', ''/s/a'', False)] w3)) \<and>
   stdout (snd (apply_additions ''/h'' (example_config order_keys) (example_world plain_files))) =
     [LinkCreated ''/h/ccc'' ''/s/ccc'', LinkCreated ''/h/bb'' ''/s/bb'',
      LinkCreated ''/h/dd'' ''/s/dd'', LinkCreated ''/h/a'' ''/s/a''] \<and>
   removals_of_config ''/h'' (example_config (map (\<lambda>k. ''-'' @ k) order_keys))
     (dirs (example_config (map (\<lambda>k. ''-'' @ k) order_keys))) []
     (snd (apply_additions ''/h'' (example_config order_keys) (example_world plain_files))) =
     (Returned order_tasks,
      snd (apply_additions ''/h'' (example_config order_keys) (example_world plain_files))) \<and>
   removals_order order_tasks =
     [(''/h/a'', ''/s/a'', False), (''/h/bb'', ''/s/bb'', False)] @ (''/h/dd'', ''/s/dd'', False) #
       [(''/h/ccc'', ''/s/ccc'', False)] \<and>
   apply_removals ''/h'' (example_config (map (\<lambda>k. ''-'' @ k) order_keys))
     (snd (apply_additions ''/h'' (example_config order_keys) (example_world plain_files))) =
     removals_loop (removals_order order_tasks)
       (snd (apply_additions ''/h'' (example_config order_keys) (example_world plain_files))) \<and>
   stdout (snd (apply_removals ''/h'' (example_config (map (\<lambda>k. ''-'' @ k) order_keys))
     (snd (apply_additions ''/h'' (example_config order_keys) (example_world plain_files))))) =
     [LinkCreated ''/h/ccc'' ''/s/ccc'', LinkCreated ''/h/bb'' ''/s/bb'',
      LinkCreated ''/h/dd'' ''/s/dd'', LinkCreated ''/h/a'' ''/s/a'',
      LinkRemoved ''/h/a'' ''/s/a'', LinkRemoved ''/h/bb'' ''/s/bb'',
      LinkRemoved ''/h/dd'' ''/s/dd'', LinkRemoved ''/h/ccc'' ''/s/ccc'']"
proof -
  let ?c = "example_config order_keys"
  let ?r = "example_config (map (\<lambda>k. ''-'' @ k) order_keys)"
  let ?w = "example_world plain_files"
  let ?w1 = "snd (apply_additions ''/h'' ?c ?w)"
  have a: "additions_of_config ''/h'' ?c (dirs ?c) [] ?w = (Returned order_tasks, ?w)"
    by code_simp
  have b: "additions_order order_tasks =
     [(''/h/ccc'', ''/s/ccc'', False)] @ (''/h/bb'', ''/s/bb'', False) #
       [(''/h/dd'', ''/s/dd'', False), (''/h/a'', ''/s/a'', False)]"
    by code_simp
  have c: "stdout ?w1 =
     [LinkCreated ''/h/ccc'' ''/s/ccc'', LinkCreated ''/h/bb'' ''/s/bb'',
      LinkCreated ''/h/dd'' ''/s/dd'', LinkCreated ''/h/a'' ''/s/a'']"
    by code_simp
  have d: "removals_of_config ''/h'' ?r (dirs ?r) [] ?w1 = (Returned order_tasks, ?w1)"
    by code_simp
  have e: "removals_order order_tasks =
     [(''/h/a'', ''/s/a'', False), (''/h/bb'', ''/s/bb'', False)] @ (''/h/dd'', ''/s/dd'', False) #
       [(''/h/ccc'', ''/s/ccc'', False)]"
    by code_simp
  have f: "stdout (snd (apply_removals ''/h'' ?r ?w1)) =
     [LinkCreated ''/h/ccc'' ''/s/ccc'', LinkCreated ''/h/bb'' ''/s/bb'',
      LinkCreated ''/h/dd'' ''/s/dd'', LinkCreated ''/h/a'' ''/s/a'',
      LinkRemoved ''/h/a'' ''/s/a'', LinkRemoved ''/h/bb'' ''/s/bb'',
      LinkRemoved ''/h/dd'' ''/s/dd'', LinkRemoved ''/h/ccc'' ''/s/ccc'']"
    by code_simp
  from processing_orders[of "''/h''" ?c ?w order_tasks ?w 0] a b
  have g: "apply_additions ''/h'' ?c ?w = additions_loop (additions_order order_tasks) ?w"
    and h: "apply_additions ''/h'' ?c ?w =
     (case additions_loop [(''/h/ccc'', ''/s/ccc'', False)] ?w of
        (Raised e, w2) \<Rightarrow> (Raised e, w2)
      | (Returned u, w2) \<Rightarrow>
          (case addition_step (''/h/bb'', ''/s/bb'', False) w2 of
             (Raised e, w3) \<Rightarrow> (Raised e, w3)
           | (Returned u, w3) \<Rightarrow>
               additions_loop [(''/h/dd'', ''/s/dd'', False), (''/h/a'', ''/s/a'', False)] w3))"
    by blast+
  from processing_orders[of "''/h''" ?r ?w1 order_tasks ?w1 0] d
  have i: "apply_removals ''/h'' ?r ?w1 = removals_loop (removals_order order_tasks) ?w1"
    by blast
  show ?thesis using a b c d e f g h i by simp
qed

subsection \<open>C7: the home-directory token\<close>

text \<open>
  C7 states that \<open>normalize_path\<close> deletes an embedded token \<open>HOME\<close>. It replaces the
  token by the home directory, as its docstring says: with the home directory
  \<open>/home/u\<close>, the path \<open>aHOMEb\<close> does not get the safe name of \<open>ab\<close>.
\<close>

theorem normalize_path_token_counterexample:
  "normalize_path ''/home/u'' ''aHOMEb'' \<noteq> normalize_path ''/home/u'' ''ab''"
  by (simp add: normalize_path_def)

text \<open>
  C7 as amended: \<open>normalize_path\<close> replaces an embedded token by the home directory
  before escaping separators, so the safe name of a path whose first token stands
  after \<open>a\<close> is the escaped \<open>a\<close>, then the escaped home directory, then the safe name of
  the rest.
\<close>

theorem normalize_path_token:
  "\<not> sublist ''HOME'' a \<Longrightarrow>
   normalize_path home (a @ ''HOME'' @ b) =
     escape_separators a @ escape_separators home @ normalize_path home b"
proof -
  assume h: "\<not> sublist ''HOME'' a"
  have n: "normalize_path home x = escape_separators (py_replace ''HOME'' home x)" for x
    by (simp add: normalize_path_def escape_separators_def)
  show ?thesis
    by (simp only: n py_replace_home_token[OF h] escape_separators_append)
qed

theorem normalize_path_token_witness:
  "\<not> sublist ''HOME'' ''x/'' \<and>
   normalize_path ''/h'' (''x/'' @ ''HOME'' @ ''/y'') =
     escape_separators ''x/'' @ escape_separators ''/h'' @ normalize_path ''/h'' ''/y'' \<and>
   normalize_path ''/h'' (''x/'' @ ''HOME'' @ ''/y'') = ''x--h-y''"
proof -
  have h: "\<not> sublist ''HOME'' ''x/''" by (simp add: sublist_Cons_right)
  have v: "normalize_path ''/h'' (''x/'' @ ''HOME'' @ ''/y'') = ''x--h-y''"
    by (simp add: normalize_path_def)
  show ?thesis using h normalize_path_token[OF h, of "''/h''" "''/y''"] v by simp
qed

section \<open>Properties of the passes\<close>

lemma resolve_print: "resolve (print m w) follow p = resolve w follow p"
  by (simp add: resolve_def print_def)

lemma files_print: "files (print m w) = files w"
  by (simp add: print_def)

lemma os_path_exists_print: "os_path_exists (print m w) p = os_path_exists w p"
  by (simp add: os_path_exists_def resolve_print)

lemma os_path_islink_print: "os_path_islink (print m w) p = os_path_islink w p"
  by (simp add: os_path_islink_def resolve_print)

lemma isfile_not_isdir: "os_path_isfile w p \<Longrightarrow> \<not> os_path_isdir w p"
  by (auto simp: os_path_isfile_def os_path_isdir_def split: resolved.splits node.splits)

lemma isdir_not_isfile: "os_path_isdir w p \<Longrightarrow> \<not> os_path_isfile w p"
  by (auto simp: os_path_isfile_def os_path_isdir_def split: resolved.splits node.splits)

lemma os_symlink_islink:
  "os_path_islink w src \<Longrightarrow> dst \<noteq> [] \<Longrightarrow> os_symlink dst src w = (Raised FileExistsError, w)"
  by (auto simp: os_path_islink_def os_symlink_def split: resolved.splits node.splits)

text \<open>
  A task whose \<open>src\<close> is a link to another target than \<open>dst\<close>: the error is printed,
  no \<open>continue\<close> follows, and \<open>os.symlink\<close> raises on the existing link.
\<close>

lemma addition_step_wrong_symlink:
  assumes "os_path_islink w src" "os_readlink w src = Returned t" "t \<noteq> dst" "dst \<noteq> []"
  shows "addition_step (src, dst, is_dir) w =
           (Raised FileExistsError, print (ErrorWrongSymlink src) w)"
  using assms os_symlink_islink[of "print (ErrorWrongSymlink src) w" src dst]
  by (simp add: addition_step_def link_and_report_def os_path_islink_print)

lemma handle_path_conflict_mismatch:
  "os_path_exists w src \<Longrightarrow>
   (is_dir \<and> os_path_isfile w src) \<or> (\<not> is_dir \<and> os_path_isdir w src) \<Longrightarrow>
   handle_path_conflict src is_dir w =
     (False, print (if is_dir then WarnNeedsDir src else WarnNeedsFile src) w)"
  by (auto simp: handle_path_conflict_def dest: isfile_not_isdir isdir_not_isfile)

lemma handle_path_conflict_absent:
  "\<not> os_path_exists w src \<Longrightarrow> handle_path_conflict src is_dir w = (True, w)"
  by (simp add: handle_path_conflict_def)

lemma handle_path_conflict_files:
  "files (snd (handle_path_conflict src is_dir w)) = files w"
  by (simp add: handle_path_conflict_def files_print)

lemma additions_of_section_files:
  "files (snd (additions_of_section home base_dir keys tasks w)) = files w"
proof (induction keys arbitrary: tasks w)
  case Nil
  show ?case by simp
next
  case (Cons raw rest)
  show ?case
  proof (cases "addition_decl home base_dir raw")
    case None
    then show ?thesis using Cons.IH by simp
  next
    case (Some t)
    obtain src dst d where t: "t = (src, dst, d)" by (cases t) auto
    obtain ok w1 where h: "handle_path_conflict src d w = (ok, w1)"
      by (cases "handle_path_conflict src d w") auto
    have f: "files w1 = files w" using handle_path_conflict_files[of src d w] h by simp
    show ?thesis using Some t h f Cons.IH by (cases ok) simp_all
  qed
qed

lemma removals_of_section_files:
  "files (snd (removals_of_section home base_dir keys tasks w)) = files w"
proof (induction keys arbitrary: tasks w)
  case Nil
  show ?case by simp
next
  case (Cons raw rest)
  show ?case
  proof (cases "removal_decl home base_dir raw")
    case None
    then show ?thesis using Cons.IH by simp
  next
    case (Some t)
    obtain src dst d where t: "t = (src, dst, d)" by (cases t) auto
    obtain ok w1 where h: "handle_path_conflict src d w = (ok, w1)"
      by (cases "handle_path_conflict src d w") auto
    have f: "files w1 = files w" using handle_path_conflict_files[of src d w] h by simp
    show ?thesis using Some t h f Cons.IH by (cases ok) simp_all
  qed
qed

subsection \<open>C1: a link to another target aborts the addition pass\<close>

text \<open>
  C1 states that a task whose \<open>src\<close> is a link to another target than \<open>dst\<close> is
  reported and skipped, and that the pass goes on with the remaining tasks. The branch
  prints "skipping" and has no \<open>continue\<close>: \<open>os.symlink\<close> raises \<open>FileExistsError\<close> on
  the link and the pass ends. With the declarations \<open>a\<close> and \<open>bb\<close>, where \<open>/h/bb\<close> is
  a link to \<open>/elsewhere\<close>, the task of \<open>/h/bb\<close> comes first (longer \<open>src\<close>): the pass
  raises, the link is untouched, and \<open>/h/a\<close> is never processed, although the pass
  over \<open>a\<close> alone replaces it by a link.
\<close>

theorem wrong_symlink_aborts_pass:
  "apply_additions ''/h'' (example_config [''a'', ''bb'']) (example_world wrong_link_files) =
     (Raised FileExistsError,
      print (ErrorWrongSymlink ''/h/bb'') (example_world wrong_link_files)) \<and>
   os_path_isfile (snd (apply_additions ''/h'' (example_config [''a'', ''bb''])
      (example_world wrong_link_files))) ''/h/a'' \<and>
   fst (apply_additions ''/h'' (example_config [''a'']) (example_world wrong_link_files)) =
     Returned () \<and>
   os_path_islink (snd (apply_additions ''/h'' (example_config [''a''])
      (example_world wrong_link_files))) ''/h/a''"
  by code_simp

subsection \<open>C8: a declaration with a type conflict is skipped\<close>

text \<open>
  C8: when \<open>src\<close> exists with the other type than the declaration expects, the conflict
  check prints its warning and returns \<open>False\<close>, and both passes go on with the
  remaining keys without a task for the declaration; collecting the tasks changes no
  file. When \<open>src'\<close> does not exist, the check returns \<open>True\<close> and prints nothing.
\<close>

theorem type_conflict_skips_declaration:
  "(os_path_exists w src \<and> (is_dir \<and> os_path_isfile w src \<or> \<not> is_dir \<and> os_path_isdir w src) \<longrightarrow>
      handle_path_conflict src is_dir w =
        (False, print (if is_dir then WarnNeedsDir src else WarnNeedsFile src) w) \<and>
      (addition_decl home base_dir raw = Some (src, dst, is_dir) \<longrightarrow>
         additions_of_section home base_dir (raw # rest) tasks w =
         additions_of_section home base_dir rest tasks
           (print (if is_dir then WarnNeedsDir src else WarnNeedsFile src) w)) \<and>
      (removal_decl home base_dir raw' = Some (src, dst, is_dir) \<longrightarrow>
         removals_of_section home base_dir (raw' # rest) tasks w =
         removals_of_section home base_dir rest tasks
           (print (if is_dir then WarnNeedsDir src else WarnNeedsFile src) w))) \<and>
   files (snd (additions_of_section home base_dir keys tasks w)) = files w \<and>
   files (snd (removals_of_section home base_dir keys tasks w)) = files w \<and>
   (\<not> os_path_exists w src' \<longrightarrow> handle_path_conflict src' is_dir' w = (True, w))"
proof -
  have 1: "handle_path_conflict src is_dir w =
        (False, print (if is_dir then WarnNeedsDir src else WarnNeedsFile src) w)"
    if "os_path_exists w src" "is_dir \<and> os_path_isfile w src \<or> \<not> is_dir \<and> os_path_isdir w src"
    using that handle_path_conflict_mismatch[of w src is_dir] by blast
  show ?thesis
    using 1 additions_of_section_files[of home base_dir keys tasks w]
      removals_of_section_files[of home base_dir keys tasks w]
      handle_path_conflict_absent[of w src' is_dir']
    by auto
qed

theorem type_conflict_skips_declaration_witness:
  "os_path_exists (example_world plain_files) ''/h/f'' \<and>
   os_path_isfile (example_world plain_files) ''/h/f'' \<and>
   addition_decl ''/h'' ''/s'' ''f/'' = Some (''/h/f'', ''/s/f'', True) \<and>
   removal_decl ''/h'' ''/s'' ''-f/'' = Some (''/h/f'', ''/s/f'', True) \<and>
   \<not> os_path_exists (example_world plain_files) ''/h/none'' \<and>
   handle_path_conflict ''/h/f'' True (example_world plain_files) =
     (False, print (WarnNeedsDir ''/h/f'') (example_world plain_files)) \<and>
   additions_of_section ''/h'' ''/s'' [''f/''] [] (example_world plain_files) =
     ([], print (WarnNeedsDir ''/h/f'') (example_world plain_files)) \<and>
   removals_of_section ''/h'' ''/s'' [''-f/''] [] (example_world plain_files) =
     ([], print (WarnNeedsDir ''/h/f'') (example_world plain_files)) \<and>
   handle_path_conflict ''/h/none'' True (example_world plain_files) =
     (True, example_world plain_files)"
proof -
  have a: "os_path_exists (example_world plain_files) ''/h/f''" by code_simp
  have b: "os_path_isfile (example_world plain_files) ''/h/f''" by code_simp
  have c: "addition_decl ''/h'' ''/s'' ''f/'' = Some (''/h/f'', ''/s/f'', True)" by code_simp
  have d: "removal_decl ''/h'' ''/s'' ''-f/'' = Some (''/h/f'', ''/s/f'', True)" by code_simp
  have e: "\<not> os_path_exists (example_world plain_files) ''/h/none''" by code_simp
  show ?thesis
    using a b c d e
      type_conflict_skips_declaration[of "example_world plain_files" "''/h/f''" True
        "''/h''" "''/s''" "''f/''" "''/s/f''" "[]" "[]" "''-f/''" "[]" "''/h/none''" True]
    by simp
qed

subsection \<open>C10: a dangling link is no type conflict\<close>

text \<open>
  C10: when \<open>src\<close> is a link whose target does not exist, \<open>os.path.exists\<close> is false, so
  the conflict check returns \<open>True\<close> for either expected type and prints nothing, and
  both passes enqueue the task of the declaration.
\<close>

theorem dangling_link_no_conflict:
  "os_path_islink w src \<Longrightarrow> \<not> os_path_exists w src \<Longrightarrow>
   handle_path_conflict src is_dir w = (True, w) \<and>
   (addition_decl home base_dir raw = Some (src, dst, is_dir) \<longrightarrow>
      additions_of_section home base_dir [raw] tasks w = (tasks @ [(src, dst, is_dir)], w)) \<and>
   (removal_decl home base_dir raw' = Some (src, dst, is_dir) \<longrightarrow>
      removals_of_section home base_dir [raw'] tasks w = (tasks @ [(src, dst, is_dir)], w))"
  using handle_path_conflict_absent[of w src is_dir] by simp

theorem dangling_link_no_conflict_witness:
  "os_path_islink (example_world dangling_files) ''/h/d'' \<and>
   \<not> os_path_exists (example_world dangling_files) ''/h/d'' \<and>
   addition_decl ''/h'' ''/s'' ''d/'' = Some (''/h/d'', ''/s/d'', True) \<and>
   removal_decl ''/h'' ''/s'' ''-d/'' = Some (''/h/d'', ''/s/d'', True) \<and>
   handle_path_conflict ''/h/d'' True (example_world dangling_files) =
     (True, example_world dangling_files) \<and>
   additions_of_section ''/h'' ''/s'' [''d/''] [] (example_world dangling_files) =
     ([(''/h/d'', ''/s/d'', True)], example_world dangling_files) \<and>
   removals_of_section ''/h'' ''/s'' [''-d/''] [] (example_world dangling_files) =
     ([(''/h/d'', ''/s/d'', True)], example_world dangling_files)"
proof -
  have a: "os_path_islink (example_world dangling_files) ''/h/d''" by code_simp
  have b: "\<not> os_path_exists (example_world dangling_files) ''/h/d''" by code_simp
  have c: "addition_decl ''/h'' ''/s'' ''d/'' = Some (''/h/d'', ''/s/d'', True)" by code_simp
  have d: "removal_decl ''/h'' ''/s'' ''-d/'' = Some (''/h/d'', ''/s/d'', True)" by code_simp
  show ?thesis
    using a b c d
      dangling_link_no_conflict[OF a b, of True "''/h''" "''/s''" "''d/''" "''/s/d''" "[]" "''-d/''"]
    by simp
qed

subsection \<open>C9: tasks and home-relative paths\<close>

lemma addition_decl_src:
  "addition_decl home base_dir raw = Some (src, dst, d) \<Longrightarrow>
   \<not> startswith raw ''-'' \<and> src = path_join home (addition_base_path raw)"
  by (auto simp: addition_decl_def addition_task_def addition_base_path_def Let_def
      split: if_splits)

lemma removal_decl_src:
  "removal_decl home base_dir raw = Some (src, dst, d) \<Longrightarrow>
   startswith raw ''-'' \<and> src = path_join home (removal_base_path raw)"
  by (auto simp: removal_decl_def removal_task_def removal_base_path_def Let_def
      split: if_splits)

lemma additions_of_section_subseq:
  "additions_of_section home base_dir keys tasks w = (tasks', w') \<Longrightarrow>
   \<exists>new. tasks' = tasks @ new \<and>
     subseq (map fst new)
       (map (\<lambda>r. path_join home (addition_base_path r)) (filter (\<lambda>r. \<not> startswith r ''-'') keys))"
proof (induction keys arbitrary: tasks w)
  case Nil
  then show ?case by simp
next
  case (Cons raw rest)
  show ?case
  proof (cases "addition_decl home base_dir raw")
    case None
    then have s: "startswith raw ''-''" by (simp add: addition_decl_def split: if_splits)
    from Cons.prems None have "additions_of_section home base_dir rest tasks w = (tasks', w')"
      by simp
    from Cons.IH[OF this] s show ?thesis by simp
  next
    case (Some t)
    obtain src dst d where t: "t = (src, dst, d)" by (cases t) auto
    from addition_decl_src[of home base_dir raw src dst d] Some t
    have s: "\<not> startswith raw ''-''" and e: "src = path_join home (addition_base_path raw)"
      by simp_all
    obtain ok w1 where h: "handle_path_conflict src d w = (ok, w1)"
      by (cases "handle_path_conflict src d w") auto
    show ?thesis
    proof (cases ok)
      case False
      with Cons.prems Some t h
      have "additions_of_section home base_dir rest tasks w1 = (tasks', w')" by simp
      from Cons.IH[OF this] obtain new where n: "tasks' = tasks @ new"
        "subseq (map fst new)
           (map (\<lambda>r. path_join home (addition_base_path r)) (filter (\<lambda>r. \<not> startswith r ''-'') rest))"
        by blast
      then show ?thesis using s by auto
    next
      case True
      with Cons.prems Some t h
      have "additions_of_section home base_dir rest (tasks @ [(src, dst, d)]) w1 = (tasks', w')"
        by simp
      from Cons.IH[OF this] obtain new where n: "tasks' = (tasks @ [(src, dst, d)]) @ new"
        "subseq (map fst new)
           (map (\<lambda>r. path_join home (addition_base_path r)) (filter (\<lambda>r. \<not> startswith r ''-'') rest))"
        by blast
      have "tasks' = tasks @ ((src, dst, d) # new)" using n(1) by simp
      moreover have "subseq (map fst ((src, dst, d) # new))
           (map (\<lambda>r. path_join home (addition_base_path r))
              (filter (\<lambda>r. \<not> startswith r ''-'') (raw # rest)))"
        using n(2) s e by simp
      ultimately show ?thesis by blast
    qed
  qed
qed

lemma removals_of_section_subseq:
  "removals_of_section home base_dir keys tasks w = (tasks', w') \<Longrightarrow>
   \<exists>new. tasks' = tasks @ new \<and>
     subseq (map fst new)
       (map (\<lambda>r. path_join home (removal_base_path r)) (filter (\<lambda>r. startswith r ''-'') keys))"
proof (induction keys arbitrary: tasks w)
  case Nil
  then show ?case by simp
next
  case (Cons raw rest)
  show ?case
  proof (cases "removal_decl home base_dir raw")
    case None
    then have s: "\<not> startswith raw ''-''" by (simp add: removal_decl_def split: if_splits)
    from Cons.prems None have "removals_of_section home base_dir rest tasks w = (tasks', w')"
      by simp
    from Cons.IH[OF this] s show ?thesis by simp
  next
    case (Some t)
    obtain src dst d where t: "t = (src, dst, d)" by (cases t) auto
    from removal_decl_src[of home base_dir raw src dst d] Some t
    have s: "startswith raw ''-''" and e: "src = path_join home (removal_base_path raw)"
      by simp_all
    obtain ok w1 where h: "handle_path_conflict src d w = (ok, w1)"
      by (cases "handle_path_conflict src d w") auto
    show ?thesis
    proof (cases ok)
      case False
      with Cons.prems Some t h
      have "removals_of_section home base_dir rest tasks w1 = (tasks', w')" by simp
      from Cons.IH[OF this] obtain new where n: "tasks' = tasks @ new"
        "subseq (map fst new)
           (map (\<lambda>r. path_join home (removal_base_path r)) (filter (\<lambda>r. startswith r ''-'') rest))"
        by blast
      then show ?thesis using s by auto
    next
      case True
      with Cons.prems Some t h
      have "removals_of_section home base_dir rest (tasks @ [(src, dst, d)]) w1 = (tasks', w')"
        by simp
      from Cons.IH[OF this] obtain new where n: "tasks' = (tasks @ [(src, dst, d)]) @ new"
        "subseq (map fst new)
           (map (\<lambda>r. path_join home (removal_base_path r)) (filter (\<lambda>r. startswith r ''-'') rest))"
        by blast
      have "tasks' = tasks @ ((src, dst, d) # new)" using n(1) by simp
      moreover have "subseq (map fst ((src, dst, d) # new))
           (map (\<lambda>r. path_join home (removal_base_path r))
              (filter (\<lambda>r. startswith r ''-'') (raw # rest)))"
        using n(2) s e by simp
      ultimately show ?thesis by blast
    qed
  qed
qed

lemma additions_of_config_subseq:
  "additions_of_config home cfg ds tasks w = (Returned tasks', w') \<Longrightarrow>
   \<exists>new. tasks' = tasks @ new \<and>
     subseq (map fst new)
       (map (\<lambda>r. path_join home (addition_base_path r))
          (concat (map (\<lambda>d. filter (\<lambda>r. \<not> startswith r ''-'') (section_keys cfg (fst d))) ds)))"
proof (induction ds arbitrary: tasks w)
  case Nil
  then show ?case by simp
next
  case (Cons d ds)
  obtain sid base_dir where d: "d = (sid, base_dir)" by (cases d) auto
  from Cons.prems d obtain keys where k: "map_of (sections cfg) sid = Some keys"
    by (cases "map_of (sections cfg) sid") auto
  obtain tasks1 w1 where s: "additions_of_section home base_dir keys tasks w = (tasks1, w1)"
    by (cases "additions_of_section home base_dir keys tasks w") auto
  from Cons.prems d k s have r: "additions_of_config home cfg ds tasks1 w1 = (Returned tasks', w')"
    by simp
  from additions_of_section_subseq[OF s] obtain new1 where n1: "tasks1 = tasks @ new1"
    "subseq (map fst new1)
       (map (\<lambda>r. path_join home (addition_base_path r)) (filter (\<lambda>r. \<not> startswith r ''-'') keys))"
    by blast
  from Cons.IH[OF r] obtain new2 where n2: "tasks' = tasks1 @ new2"
    "subseq (map fst new2)
       (map (\<lambda>r. path_join home (addition_base_path r))
          (concat (map (\<lambda>d. filter (\<lambda>r. \<not> startswith r ''-'') (section_keys cfg (fst d))) ds)))"
    by blast
  have "tasks' = tasks @ (new1 @ new2)" using n1(1) n2(1) by simp
  moreover have "subseq (map fst (new1 @ new2))
       (map (\<lambda>r. path_join home (addition_base_path r))
          (concat (map (\<lambda>d. filter (\<lambda>r. \<not> startswith r ''-'') (section_keys cfg (fst d))) (d # ds))))"
    using list_emb_append_mono[OF n1(2) n2(2)] d k by (simp add: section_keys_def)
  ultimately show ?case by blast
qed

lemma removals_of_config_subseq:
  "removals_of_config home cfg ds tasks w = (Returned tasks', w') \<Longrightarrow>
   \<exists>new. tasks' = tasks @ new \<and>
     subseq (map fst new)
       (map (\<lambda>r. path_join home (removal_base_path r))
          (concat (map (\<lambda>d. filter (\<lambda>r. startswith r ''-'') (section_keys cfg (fst d))) ds)))"
proof (induction ds arbitrary: tasks w)
  case Nil
  then show ?case by simp
next
  case (Cons d ds)
  obtain sid base_dir where d: "d = (sid, base_dir)" by (cases d) auto
  from Cons.prems d obtain keys where k: "map_of (sections cfg) sid = Some keys"
    by (cases "map_of (sections cfg) sid") auto
  obtain tasks1 w1 where s: "removals_of_section home base_dir keys tasks w = (tasks1, w1)"
    by (cases "removals_of_section home base_dir keys tasks w") auto
  from Cons.prems d k s have r: "removals_of_config home cfg ds tasks1 w1 = (Returned tasks', w')"
    by simp
  from removals_of_section_subseq[OF s] obtain new1 where n1: "tasks1 = tasks @ new1"
    "subseq (map fst new1)
       (map (\<lambda>r. path_join home (removal_base_path r)) (filter (\<lambda>r. startswith r ''-'') keys))"
    by blast
  from Cons.IH[OF r] obtain new2 where n2: "tasks' = tasks1 @ new2"
    "subseq (map fst new2)
       (map (\<lambda>r. path_join home (removal_base_path r))
          (concat (map (\<lambda>d. filter (\<lambda>r. startswith r ''-'') (section_keys cfg (fst d))) ds)))"
    by blast
  have "tasks' = tasks @ (new1 @ new2)" using n1(1) n2(1) by simp
  moreover have "subseq (map fst (new1 @ new2))
       (map (\<lambda>r. path_join home (removal_base_path r))
          (concat (map (\<lambda>d. filter (\<lambda>r. startswith r ''-'') (section_keys cfg (fst d))) (d # ds))))"
    using list_emb_append_mono[OF n1(2) n2(2)] d k by (simp add: section_keys_def)
  ultimately show ?case by blast
qed

lemma path_join_relative_inj:
  "\<not> startswith a ''/'' \<Longrightarrow> \<not> startswith b ''/'' \<Longrightarrow> path_join home a = path_join home b \<Longrightarrow> a = b"
  by (auto simp: path_join_def split: if_splits)

lemma subseq_distinct: "subseq xs ys \<Longrightarrow> distinct ys \<Longrightarrow> distinct xs"
  using subseqs_distinctD[of xs ys] by simp

lemma distinct_joined:
  assumes "distinct (map f keys)" "list_all (\<lambda>r. \<not> startswith (f r) ''/'') keys"
  shows "distinct (map (\<lambda>r. path_join home (f r)) keys)"
proof -
  have d: "distinct keys" and i: "inj_on f (set keys)"
    using assms(1) by (simp_all add: distinct_map)
  have "inj_on (\<lambda>r. path_join home (f r)) (set keys)"
  proof (rule inj_onI)
    fix x y
    assume x: "x \<in> set keys" and y: "y \<in> set keys"
      and e: "path_join home (f x) = path_join home (f y)"
    have "\<not> startswith (f x) ''/''" "\<not> startswith (f y) ''/''"
      using assms(2) x y by (simp_all add: list_all_iff)
    then have "f x = f y" using e path_join_relative_inj by blast
    then show "x = y" using i x y by (simp add: inj_on_def)
  qed
  then show ?thesis using d by (simp add: distinct_map)
qed

text \<open>
  C9 states that in one pass a home-relative path has at most one task. Nothing in the
  passes removes duplicates: the keys \<open>foo\<close> and \<open>HOME/foo\<close> of one section name the
  same home-relative path, and the addition pass enqueues two tasks for \<open>/h/foo\<close>.
\<close>

theorem one_task_per_path_counterexample:
  "additions_of_config ''/h'' (example_config [''foo'', ''HOME/foo''])
     (dirs (example_config [''foo'', ''HOME/foo''])) [] (example_world plain_files) =
   (Returned [(''/h/foo'', ''/s/foo'', False), (''/h/foo'', ''/s/foo'', False)],
    example_world plain_files)"
  by code_simp

text \<open>
  C9 as amended: every declaration of a pass yields at most one task, so there are at
  most as many tasks as keys of the pass; and when the keys of the pass name pairwise
  distinct home-relative paths, none of them absolute, no two tasks have the same
  \<open>src\<close>.
\<close>

theorem one_task_per_distinct_path:
  "(additions_of_config home cfg (dirs cfg) [] w = (Returned tasks, w') \<longrightarrow>
      length tasks \<le> length (addition_keys cfg) \<and>
      (distinct (map addition_base_path (addition_keys cfg)) \<and>
       list_all (\<lambda>r. \<not> startswith (addition_base_path r) ''/'') (addition_keys cfg) \<longrightarrow>
       distinct (map fst tasks))) \<and>
   (removals_of_config home cfg (dirs cfg) [] w = (Returned rtasks, w'') \<longrightarrow>
      length rtasks \<le> length (removal_keys cfg) \<and>
      (distinct (map removal_base_path (removal_keys cfg)) \<and>
       list_all (\<lambda>r. \<not> startswith (removal_base_path r) ''/'') (removal_keys cfg) \<longrightarrow>
       distinct (map fst rtasks)))"
proof (intro conjI impI)
  assume a: "additions_of_config home cfg (dirs cfg) [] w = (Returned tasks, w')"
  from additions_of_config_subseq[OF a]
  have s: "subseq (map fst tasks) (map (\<lambda>r. path_join home (addition_base_path r)) (addition_keys cfg))"
    by (simp add: addition_keys_def)
  from list_emb_length[OF s] show "length tasks \<le> length (addition_keys cfg)" by simp
  assume "distinct (map addition_base_path (addition_keys cfg)) \<and>
       list_all (\<lambda>r. \<not> startswith (addition_base_path r) ''/'') (addition_keys cfg)"
  then have "distinct (map (\<lambda>r. path_join home (addition_base_path r)) (addition_keys cfg))"
    using distinct_joined by blast
  then show "distinct (map fst tasks)" using s subseq_distinct by blast
next
  assume a: "removals_of_config home cfg (dirs cfg) [] w = (Returned rtasks, w'')"
  from removals_of_config_subseq[OF a]
  have s: "subseq (map fst rtasks) (map (\<lambda>r. path_join home (removal_base_path r)) (removal_keys cfg))"
    by (simp add: removal_keys_def)
  from list_emb_length[OF s] show "length rtasks \<le> length (removal_keys cfg)" by simp
  assume "distinct (map removal_base_path (removal_keys cfg)) \<and>
       list_all (\<lambda>r. \<not> startswith (removal_base_path r) ''/'') (removal_keys cfg)"
  then have "distinct (map (\<lambda>r. path_join home (removal_base_path r)) (removal_keys cfg))"
    using distinct_joined by blast
  then show "distinct (map fst rtasks)" using s subseq_distinct by blast
qed

theorem one_task_per_distinct_path_witness:
  "additions_of_config ''/h'' (example_config [''f'', ''g/'', ''-x''])
     (dirs (example_config [''f'', ''g/'', ''-x''])) [] (example_world plain_files) =
     (Returned [(''/h/f'', ''/s/f'', False), (''/h/g'', ''/s/g'', True)],
      example_world plain_files) \<and>
   distinct (map addition_base_path (addition_keys (example_config [''f'', ''g/'', ''-x'']))) \<and>
   list_all (\<lambda>r. \<not> startswith (addition_base_path r) ''/'')
     (addition_keys (example_config [''f'', ''g/'', ''-x''])) \<and>
   removals_of_config ''/h'' (example_config [''f'', ''g/'', ''-x''])
     (dirs (example_config [''f'', ''g/'', ''-x''])) [] (example_world plain_files) =
     (Returned [(''/h/x'', ''/s/x'', False)], example_world plain_files) \<and>
   distinct (map removal_base_path (removal_keys (example_config [''f'', ''g/'', ''-x'']))) \<and>
   list_all (\<lambda>r. \<not> startswith (removal_base_path r) ''/'')
     (removal_keys (example_config [''f'', ''g/'', ''-x''])) \<and>
   distinct (map fst [(''/h/f'', ''/s/f'', False), (''/h/g'', ''/s/g'', True)]) \<and>
   length [(''/h/f'', ''/s/f'', False), (''/h/g'', ''/s/g'', True)]
     \<le> length (addition_keys (example_config [''f'', ''g/'', ''-x''])) \<and>
   distinct (map fst [(''/h/x'', ''/s/x'', False)]) \<and>
   length [(''/h/x'', ''/s/x'', False)]
     \<le> length (removal_keys (example_config [''f'', ''g/'', ''-x'']))"
proof -
  let ?c = "example_config [''f'', ''g/'', ''-x'']"
  let ?w = "example_world plain_files"
  have a: "additions_of_config ''/h'' ?c (dirs ?c) [] ?w =
     (Returned [(''/h/f'', ''/s/f'', False), (''/h/g'', ''/s/g'', True)], ?w)"
    by code_simp
  have b: "distinct (map addition_base_path (addition_keys ?c))" by code_simp
  have c: "list_all (\<lambda>r. \<not> startswith (addition_base_path r) ''/'') (addition_keys ?c)"
    by code_simp
  have d: "removals_of_config ''/h'' ?c (dirs ?c) [] ?w =
     (Returned [(''/h/x'', ''/s/x'', False)], ?w)"
    by code_simp
  have e: "distinct (map removal_base_path (removal_keys ?c))" by code_simp
  have f: "list_all (\<lambda>r. \<not> startswith (removal_base_path r) ''/'') (removal_keys ?c)"
    by code_simp
  from one_task_per_distinct_path[of "''/h''" ?c ?w
      "[(''/h/f'', ''/s/f'', False), (''/h/g'', ''/s/g'', True)]" ?w
      "[(''/h/x'', ''/s/x'', False)]" ?w] a b c d e f
  show ?thesis by blast
qed

subsection \<open>Worlds that differ in what was printed\<close>



lemma stdout_self: "\<exists>out. w = w\<lparr>stdout := out\<rparr>"
  by (rule exI[of _ "stdout w"]) simp

lemma print_stdout: "print m (w\<lparr>stdout := out\<rparr>) = w\<lparr>stdout := out @ [m]\<rparr>"
  by (simp add: print_def)

lemma print_as_update: "print m w = w\<lparr>stdout := stdout w @ [m]\<rparr>"
  by (simp add: print_def)



text \<open>Collecting the tasks only prints.\<close>

lemma handle_path_conflict_prints:
  "\<exists>out. snd (handle_path_conflict src d w) = w\<lparr>stdout := out\<rparr>"
  using stdout_self[of w] by (auto simp: handle_path_conflict_def print_def)

lemma additions_of_section_prints:
  "\<exists>out. snd (additions_of_section home base_dir keys tasks w) = w\<lparr>stdout := out\<rparr>"
proof (induction keys arbitrary: tasks w)
  case Nil
  show ?case using stdout_self[of w] by simp
next
  case (Cons raw rest)
  show ?case
  proof (cases "addition_decl home base_dir raw")
    case None
    then show ?thesis using Cons.IH by simp
  next
    case (Some t)
    obtain src dst d where t: "t = (src, dst, d)" by (cases t) auto
    obtain ok w1 where h: "handle_path_conflict src d w = (ok, w1)"
      by (cases "handle_path_conflict src d w") auto
    from handle_path_conflict_prints[of src d w] h obtain out where o: "w1 = w\<lparr>stdout := out\<rparr>"
      by auto
    from Cons.IH[of "tasks" w1] Cons.IH[of "tasks @ [(src, dst, d)]" w1]
    show ?thesis using Some t h o by (cases ok) auto
  qed
qed

lemma additions_of_config_prints:
  "\<exists>out. snd (additions_of_config home cfg ds tasks w) = w\<lparr>stdout := out\<rparr>"
proof (induction ds arbitrary: tasks w)
  case Nil
  show ?case using stdout_self[of w] by simp
next
  case (Cons d ds)
  obtain sid base_dir where d: "d = (sid, base_dir)" by (cases d) auto
  show ?case
  proof (cases "map_of (sections cfg) sid")
    case None
    show ?thesis using stdout_self[of w] None d by simp
  next
    case (Some keys)
    obtain tasks1 w1 where s: "additions_of_section home base_dir keys tasks w = (tasks1, w1)"
      by (cases "additions_of_section home base_dir keys tasks w") auto
    from additions_of_section_prints[of home base_dir keys tasks w] s
    obtain out where o: "w1 = w\<lparr>stdout := out\<rparr>" by auto
    from Cons.IH[of tasks1 w1] show ?thesis using Some d s o by auto
  qed
qed




subsection \<open>Canonical paths\<close>



















subsection \<open>Views after an update\<close>

lemma lookup_Nil: "lookup fs [] = Some Dir"
  by (simp add: lookup_def)

lemma map_of_filter_key:
  "map_of (filter (\<lambda>e. P (fst e)) fs) k = (if P k then map_of fs k else None)"
  by (induction fs) auto


lemma lookup_fs_put:
  "p \<noteq> [] \<Longrightarrow> lookup (fs_put fs p n) q = (if q = p then Some n else lookup fs q)"
  using map_of_filter_key[of "\<lambda>k. k \<noteq> p" fs q] by (auto simp: lookup_def fs_put_def fs_delete_def)

lemma lookup_put_fun:
  "p \<noteq> [] \<Longrightarrow> lookup (fs_put fs p n) = (\<lambda>q. if q = p then Some n else lookup fs q)"
  by (rule ext) (simp add: lookup_fs_put)















subsection \<open>Resolution of canonical paths\<close>













subsection \<open>The library calls on canonical paths\<close>






subsection \<open>Trees\<close>







subsection \<open>Tasks that are apart\<close>








subsection \<open>One iteration of the addition pass\<close>






subsection \<open>The two loops of the addition pass\<close>








subsection \<open>C3: a second addition pass\<close>


text \<open>
  The second pass also changes the filesystem when the \<open>dst\<close> of one task is the \<open>src\<close>
  of another, with no move declined: the base directory \<open>/h/store\<close> lies in the home
  directory and the keys are \<open>store/zz\<close> and \<open>zz\<close>. The first pass links \<open>/h/store/zz\<close>
  and then moves \<open>/h/zz\<close> onto that link; the second pass finds a file at
  \<open>/h/store/zz\<close>, moves it and links it again.
\<close>

theorem second_pass_overlap:
  "fst (apply_additions ''/h'' overlap_config overlap_world) = Returned () \<and>
   stdout (snd (apply_additions ''/h'' overlap_config overlap_world)) =
     [LinkCreated ''/h/store/zz'' ''/h/store/store-zz'',
      ErrorDstExists ''/h/store/zz'' ''/h/zz'', LinkCreated ''/h/zz'' ''/h/store/zz''] \<and>
   lookup (files (snd (apply_additions ''/h'' overlap_config overlap_world)))
     [''h'', ''store'', ''zz''] = Some (File ''data'') \<and>
   fst (apply_additions ''/h'' overlap_config
     (snd (apply_additions ''/h'' overlap_config overlap_world))) = Returned () \<and>
   lookup (files (snd (apply_additions ''/h'' overlap_config
     (snd (apply_additions ''/h'' overlap_config overlap_world)))))
     [''h'', ''store'', ''zz''] = Some (Link ''/h/store/store-zz'')"
  by code_simp



subsection \<open>Adding and removing moves in a view\<close>












lemma indep_sym: "indep m n \<Longrightarrow> indep n m"
  by (simp add: indep_def apart_def)











subsection \<open>One iteration of either pass as a move\<close>









subsection \<open>The loops of the two passes\<close>















subsection \<open>C2: the round trip\<close>




end
